theory Spec2Isabelle
  imports Complex_Main "HOL-Library.Log_Nat"
begin

chapter \<open>Landing page scripts: A/B testing, analytics, lead form\<close>

text \<open>
  A shallow embedding of three pieces of the landing page's scripts:
  \<^item> the \<open>ABTesting\<close> class of \<open>ab-testing.js\<close> (variant assignment, application,
    impression tracking, preview mode) together with the \<open>DOMContentLoaded\<close> handler
    that constructs it;
  \<^item> the scroll-depth tracker of the \<open>Analytics\<close> class of \<open>analytics.js\<close>;
  \<^item> the phone-number formatter of the \<open>FormHandler\<close> class.

  JavaScript strings are modelled as \<open>string\<close>. Everything the scripts do to the
  browser (local storage, the document, the analytics collectors, the console) is explicit
  state; a JavaScript exception is a value of \<open>completion\<close>. JavaScript numbers are
  IEEE 754 doubles: a double is modelled by the real number it stands for, and every
  division and multiplication of the scripts is rounded to the nearest double.
\<close>

section \<open>Arithmetic on doubles\<close>

text \<open>Rounding a real number to the nearest integer, a tie going to the even one.\<close>

definition roundTiesToEven :: "real \<Rightarrow> int" where
  "roundTiesToEven x =
     (let f = \<lfloor>x\<rfloor>; d = x - of_int f in
      if d < 1 / 2 then f else if d > 1 / 2 then f + 1 else if even f then f else f + 1)"

text \<open>
  The binary exponent of a positive number: \<open>2 powi binade x \<le> x < 2 powi (binade x + 1)\<close>.
\<close>

definition binade :: "real \<Rightarrow> int" where
  "binade x =
     (if x \<ge> 1 then int (floorlog 2 (nat \<lfloor>x\<rfloor>)) - 1
      else (let k = floorlog 2 (nat \<lfloor>1 / x\<rfloor>) - 1 in
            if x * 2 ^ k = 1 then - int k else - int k - 1))"

text \<open>
  The distance between neighbouring doubles around a positive number: 53 significant bits,
  and the fixed spacing \<open>2 powi - 1074\<close> of the subnormal numbers below \<open>2 powi - 1022\<close>.
\<close>

definition ulp :: "real \<Rightarrow> real" where
  "ulp x = 2 powi (max (binade x) (- 1022) - 52)"

text \<open>
  The double nearest to a real number (round to nearest, ties to even), which is the result
  of an IEEE 754 multiplication or division whose exact result is that number. Overflow to
  an infinity, beyond \<open>2 ^ 1024\<close>, is not modelled.
\<close>

definition roundToDouble :: "real \<Rightarrow> real" where
  "roundToDouble x =
     (if x = 0 then 0
      else if x < 0 then - (ulp (- x) * of_int (roundTiesToEven (- x / ulp (- x))))
      else ulp x * of_int (roundTiesToEven (x / ulp x)))"

section \<open>The phone-number formatter (FormHandler.setupPhoneNumberFormatting)\<close>

text \<open>
  The regular expression \<open>/\D/g\<close> (no \<open>u\<close> flag) matches every code unit other than the
  ASCII digits \<open>0\<close> to \<open>9\<close>.
\<close>

definition isDigit :: "char \<Rightarrow> bool" where
  "isDigit c \<longleftrightarrow> c \<in> set ''0123456789''"

text \<open>
  \<open>String.prototype.substring(start, end)\<close>: both indices are clamped to the length of the
  string and swapped when \<open>start > end\<close>; \<open>substring(start)\<close> runs to the end.
\<close>

definition substring :: "string \<Rightarrow> nat \<Rightarrow> nat \<Rightarrow> string" where
  "substring s start end =
     (let a = min start (length s); b = min end (length s)
      in take (max a b - min a b) (drop (min a b) s))"

definition substringFrom :: "string \<Rightarrow> nat \<Rightarrow> string" where
  "substringFrom s start = drop (min start (length s)) s"

text \<open>
  The body of the \<open>input\<close> listener: from \<open>e.target.value\<close> to the value written back.
\<close>

definition formatPhone :: "string \<Rightarrow> string" where
  "formatPhone input =
     (let value0 = filter isDigit input;
          value1 = (if length value0 > 0 then ''0'' @ value0 else value0);
          value2 = (if length value1 > 4
                    then substring value1 0 4 @ ''-'' @ substringFrom value1 4 else value1);
          value3 = (if length value2 > 8
                    then substring value2 0 8 @ ''-'' @ substring value2 8 12 else value2)
      in substring value3 0 12)"

section \<open>Collectors shared by both tracking scripts\<close>

text \<open>
  \<open>window.gtag\<close> and \<open>window.fbq\<close>: each may be missing, may accept the call, or may throw
  (every call is wrapped in \<open>try\<close>/\<open>catch\<close> with a \<open>console.error\<close>).
\<close>

datatype collector = Absent | Accepting | Throwing

record collectors =
  gtag :: collector
  fbq :: collector

section \<open>Scroll-depth tracking (Analytics)\<close>

text \<open>
  The value of \<open>Math.round(window.scrollY / (document.body.scrollHeight - window.innerHeight) * 100)\<close>.
  \<open>scrollHeight\<close> and \<open>innerHeight\<close> are integers and \<open>scrollY\<close> is a double. The division is
  by zero when the content is exactly as tall as the viewport, which in JavaScript gives
  \<open>NaN\<close> or an infinity. The quotient and the product are each rounded to a double;
  \<open>Math.round\<close> gives the nearest integer, a tie going up.
\<close>

datatype jsnum = NaN | Num int | PosInfinity | NegInfinity

record viewport =
  scrollY :: real
  scrollHeight :: int
  innerHeight :: int

definition scrollPercent :: "viewport \<Rightarrow> jsnum" where
  "scrollPercent w =
     (let d = scrollHeight w - innerHeight w in
      if d = 0 then
        (if scrollY w = 0 then NaN else if scrollY w > 0 then PosInfinity else NegInfinity)
      else Num \<lfloor>roundToDouble (roundToDouble (scrollY w / of_int d) * 100) + 1 / 2\<rfloor>)"

text \<open>\<open>scrollPercent >= threshold\<close>: false for \<open>NaN\<close>.\<close>

fun reaches :: "jsnum \<Rightarrow> int \<Rightarrow> bool" where
  "reaches NaN th = False"
| "reaches (Num n) th = (n \<ge> th)"
| "reaches PosInfinity th = True"
| "reaches NegInfinity th = False"

record analytics_config =
  trackScrollDepthEnabled :: bool
  scrollDepthThresholds :: "int list"
  analyticsOn :: bool

definition ANALYTICS_CONFIG :: analytics_config where
  "ANALYTICS_CONFIG =
     \<lparr>trackScrollDepthEnabled = True, scrollDepthThresholds = [25, 50, 75, 100],
      analyticsOn = True\<rparr>"

text \<open>
  The calls the tracker makes, in order: \<open>gtag('event', 'scroll_depth', {..., value: th})\<close>,
  \<open>fbq('trackCustom', 'Scroll_Depth', {scroll_depth: th%})\<close>, the \<open>console.log\<close> of the
  threshold, and the \<open>console.error\<close> of each \<open>catch\<close>.
\<close>

datatype scroll_event =
    GtagScrollDepth int
  | GtagScrollError
  | FbqScrollDepth int
  | FbqScrollError
  | LogScrollDepth int

record analytics =
  scrollTracked :: "int \<rightharpoonup> bool"
  emitted :: "scroll_event list"

text \<open>The constructor: every configured threshold starts untracked.\<close>

definition new_Analytics :: "analytics_config \<Rightarrow> analytics" where
  "new_Analytics cfg =
     \<lparr>scrollTracked = fold (\<lambda>th m. m(th \<mapsto> False)) (scrollDepthThresholds cfg) Map.empty,
      emitted = []\<rparr>"

definition gtagScroll :: "collectors \<Rightarrow> int \<Rightarrow> scroll_event list" where
  "gtagScroll env th =
     (case gtag env of Absent \<Rightarrow> [] | Accepting \<Rightarrow> [GtagScrollDepth th]
      | Throwing \<Rightarrow> [GtagScrollDepth th, GtagScrollError])"

definition fbqScroll :: "collectors \<Rightarrow> int \<Rightarrow> scroll_event list" where
  "fbqScroll env th =
     (case fbq env of Absent \<Rightarrow> [] | Accepting \<Rightarrow> [FbqScrollDepth th]
      | Throwing \<Rightarrow> [FbqScrollDepth th, FbqScrollError])"

text \<open>
  One iteration of the \<open>forEach\<close> over the thresholds. \<open>!this.scrollTracked[threshold]\<close> is
  true for \<open>false\<close> and for a missing property alike.
\<close>

definition trackThreshold :: "collectors \<Rightarrow> jsnum \<Rightarrow> int \<Rightarrow> analytics \<Rightarrow> analytics" where
  "trackThreshold env pct th a =
     (if scrollTracked a th \<noteq> Some True \<and> reaches pct th then
        a\<lparr>scrollTracked := (scrollTracked a)(th \<mapsto> True),
          emitted := emitted a @ gtagScroll env th @ fbqScroll env th @ [LogScrollDepth th]\<rparr>
      else a)"

definition trackScrollDepth :: "analytics_config \<Rightarrow> collectors \<Rightarrow> viewport \<Rightarrow> analytics \<Rightarrow> analytics" where
  "trackScrollDepth cfg env w a =
     fold (trackThreshold env (scrollPercent w)) (scrollDepthThresholds cfg) a"

text \<open>
  A page load: the constructor, then one call of the \<open>scroll\<close> listener per scroll event.
  The listener is only registered when analytics and scroll tracking are both enabled.
\<close>

definition scrollSession :: "analytics_config \<Rightarrow> collectors \<Rightarrow> viewport list \<Rightarrow> analytics" where
  "scrollSession cfg env ws =
     (if analyticsOn cfg \<and> trackScrollDepthEnabled cfg
      then fold (trackScrollDepth cfg env) ws (new_Analytics cfg)
      else new_Analytics cfg)"

text \<open>The events of a log that are about one threshold.\<close>

fun aboutThreshold :: "int \<Rightarrow> scroll_event \<Rightarrow> bool" where
  "aboutThreshold th (GtagScrollDepth n) = (n = th)"
| "aboutThreshold th (FbqScrollDepth n) = (n = th)"
| "aboutThreshold th (LogScrollDepth n) = (n = th)"
| "aboutThreshold th GtagScrollError = False"
| "aboutThreshold th FbqScrollError = False"


text \<open>
  The invariant of the tracker for one threshold: nothing about the threshold has been
  emitted while its flag is unset, and never more than one call of each kind.
\<close>

definition quiet :: "int \<Rightarrow> analytics \<Rightarrow> bool" where
  "quiet th a \<longleftrightarrow>
     (scrollTracked a th \<noteq> Some True \<longrightarrow> filter (aboutThreshold th) (emitted a) = []) \<and>
     count_list (emitted a) (GtagScrollDepth th) \<le> 1 \<and>
     count_list (emitted a) (FbqScrollDepth th) \<le> 1 \<and>
     count_list (emitted a) (LogScrollDepth th) \<le> 1"

text \<open>A sample viewport, scrolled half way down, and a sample pair of collectors.\<close>

definition halfway :: viewport where
  "halfway = \<lparr>scrollY = 600, scrollHeight = 2000, innerHeight = 800\<rparr>"

definition gtag_and_failing_fbq :: collectors where
  "gtag_and_failing_fbq = \<lparr>gtag = Accepting, fbq = Throwing\<rparr>"

section \<open>A/B testing (ABTesting)\<close>

subsection \<open>Configuration\<close>

text \<open>
  \<open>tests\<close> is the object \<open>config.tests\<close> as a list of its own properties in the order of
  \<open>Object.keys\<close>: test name, then the array of allowed variant labels.
\<close>

record ab_config =
  tests :: "(string \<times> string list) list"
  cookieExpiryDays :: nat
  localStoragePrefix :: string
  analyticsEnabled :: bool

definition AB_TEST_CONFIG :: ab_config where
  "AB_TEST_CONFIG =
     \<lparr>tests = [(''hero_headline'', [''A'', ''B'']),
               (''why_now_text'', [''A'', ''B'']),
               (''cta_button_color'', [''blue'', ''yellow''])],
      cookieExpiryDays = 30,
      localStoragePrefix = ''ab_test_'',
      analyticsEnabled = True\<rparr>"

text \<open>
  \<open>config.tests\<close> is a plain object, so \<open>this.config.tests[name]\<close> also finds the properties
  it inherits from \<open>Object.prototype\<close>: functions, and \<open>Object.prototype\<close> itself for
  \<open>__proto__\<close>. None of them has an \<open>includes\<close> method or indexed elements.
\<close>

definition object_prototype_keys :: "string list" where
  "object_prototype_keys =
     [''constructor'', ''__defineGetter__'', ''__defineSetter__'', ''hasOwnProperty'',
      ''__lookupGetter__'', ''__lookupSetter__'', ''isPrototypeOf'', ''propertyIsEnumerable'',
      ''toString'', ''valueOf'', ''__proto__'', ''toLocaleString'']"

datatype tests_entry = NoProperty | InheritedProperty | AllowedVariants "string list"

definition tests_lookup :: "ab_config \<Rightarrow> string \<Rightarrow> tests_entry" where
  "tests_lookup cfg testName =
     (case map_of (tests cfg) testName of
        Some vs \<Rightarrow> AllowedVariants vs
      | None \<Rightarrow> if testName \<in> set object_prototype_keys then InheritedProperty else NoProperty)"

subsection \<open>Exceptions\<close>

text \<open>
  \<open>StorageError\<close> is the exception of a \<open>localStorage\<close> call that fails; \<open>TypeError\<close> is
  raised by a property read on \<open>undefined\<close> and by a call of something that is not a
  function. A computation either completes or throws, in both cases with the state it
  has reached.
\<close>

datatype js_error = StorageError | TypeError

datatype 'a completion = Normal 'a | Throw js_error 'a

text \<open>\<open>xs.forEach(f)\<close>: an exception in the callback ends the loop.\<close>

fun forEach :: "('a \<Rightarrow> 's \<Rightarrow> 's completion) \<Rightarrow> 'a list \<Rightarrow> 's \<Rightarrow> 's completion" where
  "forEach f [] s = Normal s"
| "forEach f (x # xs) s =
     (case f x s of Normal s' \<Rightarrow> forEach f xs s' | Throw e s' \<Rightarrow> Throw e s')"

text \<open>\<open>this.config.tests[testName].includes(v)\<close>.\<close>

definition array_includes :: "tests_entry \<Rightarrow> string \<Rightarrow> js_error + bool" where
  "array_includes entry v =
     (case entry of
        NoProperty \<Rightarrow> Inl TypeError
      | InheritedProperty \<Rightarrow> Inl TypeError
      | AllowedVariants vs \<Rightarrow> Inr (v \<in> set vs))"

subsection \<open>The browser: storage, document, collectors, URL, random numbers\<close>

text \<open>A variant as the script holds it: a label, or \<open>undefined\<close> (\<open>None\<close>).\<close>

type_synonym variant = "string option"

definition toString :: "variant \<Rightarrow> string" where
  "toString v = (case v of None \<Rightarrow> ''undefined'' | Some label \<Rightarrow> label)"

text \<open>Truthiness of a string or \<open>null\<close>: \<open>null\<close> and the empty string are falsy.\<close>

definition truthy :: "string option \<Rightarrow> bool" where
  "truthy v = (case v of None \<Rightarrow> False | Some str \<Rightarrow> str \<noteq> [])"

text \<open>
  \<open>localStorage\<close>: its records, and whether \<open>getItem\<close> and \<open>setItem\<close> throw (storage disabled,
  private browsing, quota exceeded).
\<close>

record local_storage =
  items :: "string \<rightharpoonup> string"
  getItem_throws :: bool
  setItem_throws :: bool

text \<open>
  An element: its attributes other than \<open>class\<close> and \<open>style\<close>, the tokens of its
  \<open>classList\<close> in order, the properties of its inline \<open>style\<close>, and its content, as set
  through \<open>innerHTML\<close> or through \<open>textContent\<close>.
\<close>

datatype content = Html string | Text string

record element =
  attributes :: "string \<rightharpoonup> string"
  classList :: "string list"
  inline_style :: "string \<rightharpoonup> string"
  inner :: content

text \<open>
  The part of the document the script reads and writes:
  \<^item> \<open>hero\<close>: the element with id \<open>hero\<close> and, inside it, the first element of class
    \<open>hero__title\<close>;
  \<^item> \<open>why_now\<close>, \<open>urgency_final\<close>: the elements with ids \<open>why-now\<close> and \<open>urgency-final\<close>;
  \<^item> \<open>cta_buttons\<close>: the elements carrying a \<open>data-cta-id\<close> attribute, in document order;
  \<^item> \<open>preview_indicators\<close>: the elements of class \<open>ab-preview-indicator\<close>, in document order,
    each with the test name and variant it displays.
  These are taken to be different elements, none of them inside the title or inside
  \<open>urgency-final\<close>, whose children are replaced.
\<close>

record page =
  hero :: "(element \<times> element option) option"
  why_now :: "element option"
  urgency_final :: "element option"
  cta_buttons :: "element list"
  preview_indicators :: "(string \<times> string) list"

text \<open>
  The calls the script makes, recorded in the order in which it makes them:
  \<^item> \<open>ApplyCall\<close>: the call of a test's apply method by the \<open>switch\<close> of \<open>applyVariants\<close>
    (lines 170, 173 and 176), with the variant passed;
  \<^item> \<open>IndicatorAppended\<close>: \<open>document.body.appendChild(indicator)\<close> (line 107);
  \<^item> \<open>gtag('event', 'ab_test_impression', ...)\<close>, \<open>fbq('trackCustom', 'AB_Test_Impression', ...)\<close>
    and the \<open>console.log\<close> of an impression, with the \<open>console.error\<close> of the two \<open>catch\<close>
    blocks around the collectors;
  \<^item> \<open>LogInitError\<close>: the \<open>console.error\<close> of the \<open>catch\<close> around the construction.
\<close>

datatype ab_event =
    ApplyCall string variant
  | IndicatorAppended string string
  | GtagImpression string variant
  | GtagImpressionError
  | FbqImpression string variant
  | FbqImpressionError
  | LogImpression string variant
  | LogInitError js_error

text \<open>
  What the script reads from its environment: the collectors, the parameters of
  \<open>window.location.search\<close>, and the successive results of \<open>Math.random()\<close>.
\<close>

record browser = collectors +
  search :: "string \<rightharpoonup> string"
  math_random :: "nat \<Rightarrow> real"

text \<open>
  The state: the object's \<open>variants\<close> (own properties in the order of \<open>Object.keys\<close>), the
  storage, the document, the calls made so far, and the number of random numbers drawn.
\<close>

record state =
  variants :: "(string \<times> variant) list"
  storage :: local_storage
  document :: page
  calls :: "ab_event list"
  draws :: nat

subsection \<open>Storage and properties\<close>

definition storageKey :: "ab_config \<Rightarrow> string \<Rightarrow> string" where
  "storageKey cfg testName = localStoragePrefix cfg @ testName"

definition getItem :: "string \<Rightarrow> state \<Rightarrow> js_error + string option" where
  "getItem key s =
     (if getItem_throws (storage s) then Inl StorageError else Inr (items (storage s) key))"

definition setItem :: "string \<Rightarrow> string \<Rightarrow> state \<Rightarrow> state completion" where
  "setItem key v s =
     (if setItem_throws (storage s) then Throw StorageError s
      else Normal (s\<lparr>storage := (storage s)\<lparr>items := (items (storage s))(key \<mapsto> v)\<rparr>\<rparr>))"

text \<open>
  \<open>obj[key] = v\<close> on a plain object: an existing own property keeps its place, a new one
  goes last. Assigning a string or \<open>undefined\<close> to \<open>__proto__\<close> does nothing.
\<close>

fun assign_prop :: "string \<Rightarrow> 'v \<Rightarrow> (string \<times> 'v) list \<Rightarrow> (string \<times> 'v) list" where
  "assign_prop k v [] = [(k, v)]"
| "assign_prop k v ((k', v') # ps) =
     (if k' = k then (k, v) # ps else (k', v') # assign_prop k v ps)"

definition setVariant :: "string \<Rightarrow> variant \<Rightarrow> state \<Rightarrow> state" where
  "setVariant testName v s =
     (if testName = ''__proto__'' then s
      else s\<lparr>variants := assign_prop testName v (variants s)\<rparr>)"

text \<open>\<open>Math.random()\<close>, and \<open>xs[i]\<close> for an integral number \<open>i\<close>.\<close>

definition randomDraw :: "browser \<Rightarrow> state \<Rightarrow> real \<times> state" where
  "randomDraw env s = (math_random env (draws s), s\<lparr>draws := Suc (draws s)\<rparr>)"

definition element_at :: "'a list \<Rightarrow> int \<Rightarrow> 'a option" where
  "element_at xs i = (if 0 \<le> i \<and> i < int (length xs) then Some (xs ! nat i) else None)"

subsection \<open>assignVariant\<close>

text \<open>
  Lines 151 to 158, the random assignment. \<open>Math.random()\<close> is called before
  \<open>variants.length\<close> is read. The product of the random number and the length is rounded to
  a double before \<open>Math.floor\<close>. For an inherited property every index read gives
  \<open>undefined\<close>.
\<close>

definition storeSelected :: "ab_config \<Rightarrow> string \<Rightarrow> variant \<Rightarrow> state \<Rightarrow> state completion" where
  "storeSelected cfg testName selectedVariant s =
     setItem (storageKey cfg testName) (toString selectedVariant)
       (setVariant testName selectedVariant s)"

definition assignRandom :: "ab_config \<Rightarrow> browser \<Rightarrow> string \<Rightarrow> state \<Rightarrow> state completion" where
  "assignRandom cfg env testName s =
     (let (r, s1) = randomDraw env s in
      case tests_lookup cfg testName of
        NoProperty \<Rightarrow> Throw TypeError s1
      | InheritedProperty \<Rightarrow> storeSelected cfg testName None s1
      | AllowedVariants vs \<Rightarrow>
          storeSelected cfg testName
            (element_at vs \<lfloor>roundToDouble (r * real (length vs))\<rfloor>) s1)"

text \<open>Lines 140 to 149, the URL parameter \<open>ab_\<close> followed by the test name.\<close>

definition assignFromUrl :: "ab_config \<Rightarrow> browser \<Rightarrow> string \<Rightarrow> state \<Rightarrow> state completion" where
  "assignFromUrl cfg env testName s =
     (case search env (''ab_'' @ testName) of
        None \<Rightarrow> assignRandom cfg env testName s
      | Some paramVariant \<Rightarrow>
          (case array_includes (tests_lookup cfg testName) paramVariant of
             Inl e \<Rightarrow> Throw e s
           | Inr ok \<Rightarrow>
               if ok then
                 setItem (storageKey cfg testName) paramVariant
                   (setVariant testName (Some paramVariant) s)
               else assignRandom cfg env testName s))"

text \<open>Lines 132 to 138, the stored variant, and the rest of the method.\<close>

definition assignVariant :: "ab_config \<Rightarrow> browser \<Rightarrow> string \<Rightarrow> state \<Rightarrow> state completion" where
  "assignVariant cfg env testName s =
     (case getItem (storageKey cfg testName) s of
        Inl e \<Rightarrow> Throw e s
      | Inr storedVariant \<Rightarrow>
          if truthy storedVariant then
            (case array_includes (tests_lookup cfg testName) (toString storedVariant) of
               Inl e \<Rightarrow> Throw e s
             | Inr ok \<Rightarrow>
                 if ok then Normal (setVariant testName storedVariant s)
                 else assignFromUrl cfg env testName s)
          else assignFromUrl cfg env testName s)"

subsection \<open>Applying variants to the page\<close>

definition setAttribute :: "string \<Rightarrow> string \<Rightarrow> element \<Rightarrow> element" where
  "setAttribute name v e = e\<lparr>attributes := (attributes e)(name \<mapsto> v)\<rparr>"

definition classList_add :: "string \<Rightarrow> element \<Rightarrow> element" where
  "classList_add c e =
     e\<lparr>classList := (if c \<in> set (classList e) then classList e else classList e @ [c])\<rparr>"

definition classList_remove :: "string \<Rightarrow> element \<Rightarrow> element" where
  "classList_remove c e = e\<lparr>classList := removeAll c (classList e)\<rparr>"

text \<open>\<open>e.style.prop = v\<close>: the empty string removes the property.\<close>

definition setStyle :: "string \<Rightarrow> string \<Rightarrow> element \<Rightarrow> element" where
  "setStyle prop v e =
     e\<lparr>inline_style :=
         (if v = [] then (inline_style e)(prop := None) else (inline_style e)(prop \<mapsto> v))\<rparr>"

text \<open>
  The four texts of lines 196, 198, 216 and 218, as the bytes of their UTF-8 encoding.
\<close>

definition utf8 :: "nat list \<Rightarrow> string" where
  "utf8 bytes = map char_of bytes"

definition heroTitleHtmlB :: string where
  \<open>heroTitleHtmlB =
     utf8 [0xD9, 0x88, 0xD9, 0x82, 0xD9, 0x81, 0x20, 0xD9, 0x87, 0xD8, 0xAF, 0xD8, 0xB1, 0x20, 0xD8, 0xA7,
       0xD9, 0x84, 0xD9, 0x81, 0xD9, 0x84, 0xD9, 0x88, 0xD8, 0xB3, 0x20, 0xD8, 0xB9, 0xD9, 0x84, 0xD9,
       0x89, 0x20, 0xD8, 0xA5, 0xD8, 0xB9, 0xD9, 0x84, 0xD8, 0xA7, 0xD9, 0x86, 0xD8, 0xA7, 0xD8, 0xAA,
       0x20, 0xD9, 0x85, 0xD8, 0xA7, 0x20, 0xD8, 0xAA, 0xD8, 0xAC, 0xD9, 0x8A, 0xD8, 0xA8, 0x20, 0xD9,
       0x86, 0xD8, 0xAA, 0xD9, 0x8A, 0xD8, 0xAC, 0xD8, 0xA9, 0xE2, 0x80, 0xA6] @
     '' <span class="hero__title-highlight">'' @
     utf8 [0xD9, 0x86, 0xD8, 0xB6, 0xD9, 0x85, 0xD9, 0x86, 0x20, 0xD8, 0xA7, 0xD9, 0x84, 0xD8, 0xB2, 0xD9,
       0x8A, 0xD8, 0xA7, 0xD8, 0xAF, 0xD8, 0xA9, 0x20, 0xD9, 0x88, 0xD8, 0xA5, 0xD9, 0x84, 0xD8, 0xA7,
       0x20, 0xD9, 0x85, 0xD8, 0xA7, 0x20, 0xD8, 0xAA, 0xD8, 0xAF, 0xD9, 0x81, 0xD8, 0xB9] @
     ''</span>''\<close>

definition heroTitleHtmlA :: string where
  \<open>heroTitleHtmlA =
     ''<span class="hero__title-highlight">'' @
     utf8 [0xD9, 0x86, 0xD8, 0xB1, 0xD9, 0x81, 0xD8, 0xB9, 0x20, 0xD9, 0x85, 0xD8, 0xA8, 0xD9, 0x8A, 0xD8,
       0xB9, 0xD8, 0xA7, 0xD8, 0xAA, 0x20, 0xD9, 0x85, 0xD8, 0xB4, 0xD8, 0xB1, 0xD9, 0x88, 0xD8, 0xB9,
       0xD9, 0x83, 0x20, 0xD8, 0xAE, 0xD9, 0x84, 0xD8, 0xA7, 0xD9, 0x84, 0x20, 0xD9, 0xA9, 0xD9, 0xA0,
       0x20, 0xD9, 0x8A, 0xD9, 0x88, 0xD9, 0x85, 0xE2, 0x80, 0xA6] @
     ''</span> '' @
     utf8 [0xD9, 0x88, 0xD8, 0xA5, 0xD9, 0x84, 0xD8, 0xA7, 0x20, 0xD9, 0x86, 0xD8, 0xB1, 0xD8, 0xAC, 0xD9,
       0x91, 0xD8, 0xB9, 0x20, 0xD8, 0xB1, 0xD8, 0xB3, 0xD9, 0x88, 0xD9, 0x85, 0xD9, 0x86, 0xD8, 0xA7]\<close>

definition urgencyFinalTextB :: string where
  \<open>urgencyFinalTextB =
     utf8 [0xD9, 0x83, 0xD9, 0x84, 0x20, 0xD8, 0xA3, 0xD8, 0xB3, 0xD8, 0xA8, 0xD9, 0x88, 0xD8, 0xB9, 0x20,
       0xD8, 0xAA, 0xD8, 0xA3, 0xD8, 0xAE, 0xD9, 0x8A, 0xD8, 0xB1] @
     '' = '' @
     utf8 [0xD8, 0xAA, 0xD9, 0x83, 0xD8, 0xA7, 0xD9, 0x84, 0xD9, 0x8A, 0xD9, 0x81, 0x20, 0xD8, 0xA3, 0xD8,
       0xB9, 0xD9, 0x84, 0xD9, 0x89, 0x20, 0xD9, 0x88, 0xD9, 0x86, 0xD9, 0x85, 0xD9, 0x88, 0x20, 0xD8,
       0xA3, 0xD8, 0xA8, 0xD8, 0xB7, 0xD8, 0xA3, 0x20, 0xE2, 0x80, 0x94, 0x20, 0xD8, 0xAE, 0xD9, 0x84,
       0xD9, 0x91, 0xD9, 0x86, 0xD8, 0xA7, 0x20, 0xD9, 0x86, 0xD8, 0xA8, 0xD8, 0xAF, 0xD8, 0xA3, 0x20,
       0xD8, 0xA8, 0xD8, 0xAE, 0xD8, 0xB7, 0xD8, 0xA9, 0x20, 0xD9, 0x88, 0xD8, 0xA7, 0xD8, 0xB6, 0xD8,
       0xAD, 0xD8, 0xA9] @
     ''.''\<close>

definition urgencyFinalTextA :: string where
  \<open>urgencyFinalTextA =
     utf8 [0xD9, 0x85, 0xD9, 0x82, 0xD8, 0xA7, 0xD8, 0xB9, 0xD8, 0xAF, 0x20, 0xD8, 0xA7, 0xD9, 0x84, 0xD8,
       0xB4, 0xD8, 0xB1, 0xD8, 0xA7, 0xD9, 0x83, 0xD8, 0xA9, 0x20, 0xD9, 0x84, 0xD9, 0x87, 0xD8, 0xA7,
       0xD9, 0x84, 0xD8, 0xB4, 0xD9, 0x87, 0xD8, 0xB1, 0x20, 0xD9, 0x82, 0xD8, 0xB1, 0xD8, 0xA8, 0xD8,
       0xAA, 0x20, 0xD8, 0xAA, 0xD9, 0x83, 0xD8, 0xAA, 0xD9, 0x85, 0xD9, 0x84, 0x20, 0xE2, 0x80, 0x94,
       0x20, 0xD8, 0xA7, 0xD8, 0xAD, 0xD8, 0xAC, 0xD8, 0xB2, 0x20, 0xD9, 0x82, 0xD8, 0xA8, 0xD9, 0x84,
       0x20, 0xD9, 0x85, 0xD8, 0xA7, 0x20, 0xD8, 0xAA, 0xD9, 0x82, 0xD9, 0x81, 0xD9, 0x84] @
     ''.''\<close>

definition applyHeroHeadlineVariant :: "variant \<Rightarrow> page \<Rightarrow> page" where
  "applyHeroHeadlineVariant variant pg =
     (case hero pg of
        None \<Rightarrow> pg
      | Some (heroSection, title) \<Rightarrow>
          (let heroSection' = setAttribute ''data-variant'' (toString variant) heroSection in
           case title of
             None \<Rightarrow> pg\<lparr>hero := Some (heroSection', None)\<rparr>
           | Some t \<Rightarrow>
               if variant = Some ''B''
               then pg\<lparr>hero := Some (heroSection', Some (t\<lparr>inner := Html heroTitleHtmlB\<rparr>))\<rparr>
               else pg\<lparr>hero := Some (heroSection', Some (t\<lparr>inner := Html heroTitleHtmlA\<rparr>))\<rparr>))"

definition applyWhyNowTextVariant :: "variant \<Rightarrow> page \<Rightarrow> page" where
  "applyWhyNowTextVariant variant pg =
     (case why_now pg of
        None \<Rightarrow> pg
      | Some whyNowSection \<Rightarrow>
          (let pg' = pg\<lparr>why_now :=
                         Some (setAttribute ''data-variant'' (toString variant) whyNowSection)\<rparr> in
           case urgency_final pg' of
             None \<Rightarrow> pg'
           | Some urgencyFinal \<Rightarrow>
               if variant = Some ''B''
               then pg'\<lparr>urgency_final := Some (urgencyFinal\<lparr>inner := Text urgencyFinalTextB\<rparr>)\<rparr>
               else pg'\<lparr>urgency_final := Some (urgencyFinal\<lparr>inner := Text urgencyFinalTextA\<rparr>)\<rparr>))"

text \<open>The body of the loop over the buttons, then the method.\<close>

definition applyCtaButton :: "variant \<Rightarrow> element \<Rightarrow> element" where
  "applyCtaButton variant button =
     (let b = setAttribute ''data-variant'' (toString variant) button in
      if variant = Some ''yellow'' then
        setStyle ''color'' ''#000'' (setStyle ''background'' ''#F2C526''
          (classList_add ''btn--yellow'' (classList_remove ''btn--primary'' b)))
      else
        setStyle ''color'' [] (setStyle ''background'' []
          (classList_add ''btn--primary'' (classList_remove ''btn--yellow'' b))))"

definition applyCtaButtonColorVariant :: "variant \<Rightarrow> page \<Rightarrow> page" where
  "applyCtaButtonColorVariant variant pg =
     (if cta_buttons pg = [] then pg
      else pg\<lparr>cta_buttons := map (applyCtaButton variant) (cta_buttons pg)\<rparr>)"

text \<open>The \<open>switch\<close> of \<open>applyVariants\<close>, and its loop over \<open>Object.keys(this.variants)\<close>.\<close>

definition applyTest :: "string \<Rightarrow> variant \<Rightarrow> page \<Rightarrow> page" where
  "applyTest testName variant pg =
     (if testName = ''hero_headline'' then applyHeroHeadlineVariant variant pg
      else if testName = ''why_now_text'' then applyWhyNowTextVariant variant pg
      else if testName = ''cta_button_color'' then applyCtaButtonColorVariant variant pg
      else pg)"

text \<open>The test names that have a \<open>case\<close> in the \<open>switch\<close>.\<close>

definition switch_cases :: "string list" where
  "switch_cases = [''hero_headline'', ''why_now_text'', ''cta_button_color'']"

definition applyVariant :: "string \<times> variant \<Rightarrow> state \<Rightarrow> state" where
  "applyVariant entry s =
     (case entry of (testName, variant) \<Rightarrow>
        if testName \<in> set switch_cases
        then s\<lparr>calls := calls s @ [ApplyCall testName variant],
               document := applyTest testName variant (document s)\<rparr>
        else s)"

definition applyVariants :: "state \<Rightarrow> state" where
  "applyVariants s = fold applyVariant (variants s) s"

subsection \<open>Impressions\<close>

definition gtagImpression :: "browser \<Rightarrow> string \<Rightarrow> variant \<Rightarrow> ab_event list" where
  "gtagImpression env testName variant =
     (case gtag env of
        Absent \<Rightarrow> []
      | Accepting \<Rightarrow> [GtagImpression testName variant]
      | Throwing \<Rightarrow> [GtagImpression testName variant, GtagImpressionError])"

definition fbqImpression :: "browser \<Rightarrow> string \<Rightarrow> variant \<Rightarrow> ab_event list" where
  "fbqImpression env testName variant =
     (case fbq env of
        Absent \<Rightarrow> []
      | Accepting \<Rightarrow> [FbqImpression testName variant]
      | Throwing \<Rightarrow> [FbqImpression testName variant, FbqImpressionError])"

text \<open>One iteration of the loop of \<open>trackImpressions\<close>: the calls it makes, in order.\<close>

definition impressionCalls :: "browser \<Rightarrow> string \<times> variant \<Rightarrow> ab_event list" where
  "impressionCalls env entry =
     (case entry of (testName, variant) \<Rightarrow>
        gtagImpression env testName variant @ fbqImpression env testName variant @
        [LogImpression testName variant])"

definition trackImpression :: "browser \<Rightarrow> string \<times> variant \<Rightarrow> state \<Rightarrow> state" where
  "trackImpression env entry s = s\<lparr>calls := calls s @ impressionCalls env entry\<rparr>"

definition trackImpressions :: "ab_config \<Rightarrow> browser \<Rightarrow> state \<Rightarrow> state" where
  "trackImpressions cfg env s =
     (if \<not> analyticsEnabled cfg then s else fold (trackImpression env) (variants s) s)"

subsection \<open>Preview mode and initialization\<close>

text \<open>
  \<open>addPreviewIndicator\<close>: the first existing indicator is removed, the new one is appended
  to the body.
\<close>

definition addPreviewIndicator :: "string \<Rightarrow> string \<Rightarrow> state \<Rightarrow> state" where
  "addPreviewIndicator testName variant s =
     s\<lparr>document := (document s)\<lparr>preview_indicators :=
         (case preview_indicators (document s) of [] \<Rightarrow> [] | existing # others \<Rightarrow> others)
         @ [(testName, variant)]\<rparr>,
       calls := calls s @ [IndicatorAppended testName variant]\<rparr>"

text \<open>
  \<open>handlePreviewMode\<close>. The condition is a chain of \<open>&&\<close>: a falsy test name, variant or
  \<open>tests[testName]\<close> ends it; an inherited property is truthy and its \<open>includes\<close> is not a
  function.
\<close>

definition handlePreviewMode :: "ab_config \<Rightarrow> browser \<Rightarrow> state \<Rightarrow> state completion" where
  "handlePreviewMode cfg env s =
     (let testName = search env ''ab_preview''; variant = search env ''variant'' in
      if truthy testName \<and> truthy variant then
        (case tests_lookup cfg (toString testName) of
           NoProperty \<Rightarrow> Normal s
         | InheritedProperty \<Rightarrow> Throw TypeError s
         | AllowedVariants vs \<Rightarrow>
             if toString variant \<in> set vs then
               (case setItem (storageKey cfg (toString testName)) (toString variant) s of
                  Throw e s' \<Rightarrow> Throw e s'
                | Normal s1 \<Rightarrow>
                    Normal (addPreviewIndicator (toString testName) (toString variant)
                      (applyVariants (setVariant (toString testName) variant s1))))
             else Normal s)
      else Normal s)"

definition initialize :: "ab_config \<Rightarrow> browser \<Rightarrow> state \<Rightarrow> state completion" where
  "initialize cfg env s =
     (if search env ''ab_preview'' \<noteq> None then handlePreviewMode cfg env s
      else
        (case forEach (assignVariant cfg env) (map fst (tests cfg)) s of
           Throw e s' \<Rightarrow> Throw e s'
         | Normal s1 \<Rightarrow> Normal (trackImpressions cfg env (applyVariants s1))))"

text \<open>The constructor: \<open>this.variants = {}\<close>, then \<open>this.initialize()\<close>.\<close>

definition new_ABTesting :: "ab_config \<Rightarrow> browser \<Rightarrow> state \<Rightarrow> state completion" where
  "new_ABTesting cfg env s = initialize cfg env (s\<lparr>variants := []\<rparr>)"

text \<open>
  The \<open>DOMContentLoaded\<close> handler, once its timer has fired. \<open>Initialized\<close>: the object has
  been constructed and stored in \<open>window.abTesting\<close>. \<open>Failed\<close>: the construction threw, the
  \<open>catch\<close> logged the error, and \<open>window.abTesting\<close> was never set.
\<close>

datatype loaded = Initialized state | Failed state

definition domContentLoaded :: "ab_config \<Rightarrow> browser \<Rightarrow> state \<Rightarrow> loaded" where
  "domContentLoaded cfg env s =
     (case new_ABTesting cfg env s of
        Normal s' \<Rightarrow> Initialized s'
      | Throw e s' \<Rightarrow> Failed (s'\<lparr>calls := calls s' @ [LogInitError e]\<rparr>))"

subsection \<open>Well-formed configurations and environments\<close>

text \<open>
  What \<open>AB_TEST_CONFIG\<close> satisfies: the test names are distinct and are not names of
  \<open>Object.prototype\<close>, every test has at least one variant label, and no label is the empty
  string.
\<close>

definition wf_config :: "ab_config \<Rightarrow> bool" where
  "wf_config cfg \<longleftrightarrow>
     distinct (map fst (tests cfg)) \<and>
     (\<forall>(testName, vs) \<in> set (tests cfg).
        testName \<notin> set object_prototype_keys \<and> vs \<noteq> [] \<and> [] \<notin> set vs)"

text \<open>
  \<open>Math.random()\<close> returns a double from 0 up to but not including 1; the largest double
  below 1 is \<open>1 - 1 / 2 ^ 53\<close>.
\<close>

definition random_ok :: "browser \<Rightarrow> bool" where
  "random_ok env \<longleftrightarrow> (\<forall>k. 0 \<le> math_random env k \<and> math_random env k \<le> 1 - 1 / 2 ^ 53)"

text \<open>A variant entry is valid when it is a label of its test's allowed set.\<close>

definition valid_entry :: "ab_config \<Rightarrow> string \<times> variant \<Rightarrow> bool" where
  "valid_entry cfg entry =
     (case entry of (testName, variant) \<Rightarrow>
        (case (map_of (tests cfg) testName, variant) of
           (Some vs, Some label) \<Rightarrow> label \<in> set vs
         | _ \<Rightarrow> False))"

subsection \<open>Reading a result\<close>

definition completed :: "state completion \<Rightarrow> bool" where
  "completed c = (case c of Normal s \<Rightarrow> True | Throw e s \<Rightarrow> False)"

definition final :: "state completion \<Rightarrow> state" where
  "final c = (case c of Normal s \<Rightarrow> s | Throw e s \<Rightarrow> s)"

definition initialized :: "loaded \<Rightarrow> bool" where
  "initialized l = (case l of Initialized s \<Rightarrow> True | Failed s \<Rightarrow> False)"

definition after_load :: "loaded \<Rightarrow> state" where
  "after_load l = (case l of Initialized s \<Rightarrow> s | Failed s \<Rightarrow> s)"

text \<open>
  The state after a label has been resolved for a test and written to storage.
\<close>

definition persisted :: "ab_config \<Rightarrow> string \<Rightarrow> string \<Rightarrow> state \<Rightarrow> state" where
  "persisted cfg testName label s =
     s\<lparr>variants := assign_prop testName (Some label) (variants s),
       storage := (storage s)\<lparr>items := (items (storage s))(storageKey cfg testName \<mapsto> label)\<rparr>\<rparr>"

text \<open>
  The calls of the apply methods that \<open>applyVariants\<close> makes for a list of variant entries.
\<close>

definition applyCalls :: "(string \<times> variant) list \<Rightarrow> ab_event list" where
  "applyCalls entries =
     map (\<lambda>(testName, variant). ApplyCall testName variant)
       (filter (\<lambda>(testName, variant). testName \<in> set switch_cases) entries)"

text \<open>
  What the page shows once a variant of a test has been applied, element by element: the
  \<open>data-variant\<close> attribute and the content, classes and inline style of that variant. An
  element that is missing shows nothing, and below a missing \<open>why-now\<close> section
  \<open>urgency-final\<close> is not looked at.
\<close>

definition hero_shows :: "variant \<Rightarrow> page \<Rightarrow> bool" where
  "hero_shows variant pg =
     (case hero pg of
        None \<Rightarrow> True
      | Some (heroSection, title) \<Rightarrow>
          attributes heroSection ''data-variant'' = Some (toString variant) \<and>
          (case title of
             None \<Rightarrow> True
           | Some t \<Rightarrow>
               inner t = Html (if variant = Some ''B'' then heroTitleHtmlB else heroTitleHtmlA)))"

definition why_now_shows :: "variant \<Rightarrow> page \<Rightarrow> bool" where
  "why_now_shows variant pg =
     (case why_now pg of
        None \<Rightarrow> True
      | Some whyNowSection \<Rightarrow>
          attributes whyNowSection ''data-variant'' = Some (toString variant) \<and>
          (case urgency_final pg of
             None \<Rightarrow> True
           | Some urgencyFinal \<Rightarrow>
               inner urgencyFinal =
                 Text (if variant = Some ''B'' then urgencyFinalTextB else urgencyFinalTextA)))"

definition button_shows :: "variant \<Rightarrow> element \<Rightarrow> bool" where
  "button_shows variant button =
     (attributes button ''data-variant'' = Some (toString variant) \<and>
      (if variant = Some ''yellow'' then
         ''btn--yellow'' \<in> set (classList button) \<and> ''btn--primary'' \<notin> set (classList button) \<and>
         inline_style button ''background'' = Some ''#F2C526'' \<and>
         inline_style button ''color'' = Some ''#000''
       else
         ''btn--primary'' \<in> set (classList button) \<and> ''btn--yellow'' \<notin> set (classList button) \<and>
         inline_style button ''background'' = None \<and>
         inline_style button ''color'' = None))"

definition variant_shown :: "string \<Rightarrow> variant \<Rightarrow> page \<Rightarrow> bool" where
  "variant_shown testName variant pg =
     (if testName = ''hero_headline'' then hero_shows variant pg
      else if testName = ''why_now_text'' then why_now_shows variant pg
      else if testName = ''cta_button_color'' then list_all (button_shows variant) (cta_buttons pg)
      else True)"

text \<open>
  Successful preview entry: both parameters are present and non-empty, the first names a
  configured test and the second is one of its allowed variants.
\<close>

definition preview_entry :: "ab_config \<Rightarrow> browser \<Rightarrow> bool" where
  "preview_entry cfg env =
     (case (search env ''ab_preview'', search env ''variant'') of
        (Some t, Some v) \<Rightarrow>
          t \<noteq> [] \<and> v \<noteq> [] \<and>
          (case map_of (tests cfg) t of Some vs \<Rightarrow> v \<in> set vs | None \<Rightarrow> False)
      | _ \<Rightarrow> False)"

text \<open>The calls of a log, by kind.\<close>

fun isApplyCall :: "ab_event \<Rightarrow> bool" where
  "isApplyCall (ApplyCall t v) = True"
| "isApplyCall e = False"


fun isLogImpression :: "ab_event \<Rightarrow> bool" where
  "isLogImpression (LogImpression t v) = True"
| "isLogImpression e = False"

fun isGtagImpression :: "ab_event \<Rightarrow> bool" where
  "isGtagImpression (GtagImpression t v) = True"
| "isGtagImpression e = False"

fun isFbqImpression :: "ab_event \<Rightarrow> bool" where
  "isFbqImpression (FbqImpression t v) = True"
| "isFbqImpression e = False"

subsection \<open>Sample inputs\<close>

definition working_storage :: "(string \<rightharpoonup> string) \<Rightarrow> local_storage" where
  "working_storage m = \<lparr>items = m, getItem_throws = False, setItem_throws = False\<rparr>"

definition unavailable_storage :: local_storage where
  "unavailable_storage = \<lparr>items = Map.empty, getItem_throws = True, setItem_throws = True\<rparr>"

definition plain_element :: element where
  "plain_element =
     \<lparr>attributes = Map.empty, classList = [], inline_style = Map.empty, inner = Text []\<rparr>"

definition sample_page :: page where
  "sample_page =
     \<lparr>hero = Some (plain_element, Some plain_element),
      why_now = Some plain_element,
      urgency_final = Some plain_element,
      cta_buttons = [plain_element\<lparr>classList := [''btn'', ''btn--primary'']\<rparr>],
      preview_indicators = []\<rparr>"

definition start :: "local_storage \<Rightarrow> state" where
  "start st = \<lparr>variants = [], storage = st, document = sample_page, calls = [], draws = 0\<rparr>"

text \<open>
  Visitors with gtag installed and the given URL parameters: one for whom every random
  number is 0, and one for whom every random number is the double nearest to two thirds.
\<close>

definition visitor :: "(string \<rightharpoonup> string) \<Rightarrow> browser" where
  "visitor params =
     \<lparr>gtag = Accepting, fbq = Absent, search = params, math_random = (\<lambda>k. 0)\<rparr>"

definition two_thirds_visitor :: "(string \<rightharpoonup> string) \<Rightarrow> browser" where
  "two_thirds_visitor params =
     \<lparr>gtag = Accepting, fbq = Absent, search = params,
      math_random = (\<lambda>k. 6004799503160661 / 2 ^ 53)\<rparr>"

text \<open>A configuration with one test of three variants.\<close>

definition three_way_config :: ab_config where
  "three_way_config =
     \<lparr>tests = [(''hero_headline'', [''A'', ''B'', ''D''])],
      cookieExpiryDays = 30,
      localStoragePrefix = ''ab_test_'',
      analyticsEnabled = True\<rparr>"

text \<open>Stored records: a valid label, and a label that is no longer allowed.\<close>

definition returning :: "string \<rightharpoonup> string" where
  "returning = [''ab_test_hero_headline'' \<mapsto> ''B'']"

definition stale :: "string \<rightharpoonup> string" where
  "stale = [''ab_test_hero_headline'' \<mapsto> ''C'']"

text \<open>URL parameters: a valid preview, an unknown test, and an inherited property name.\<close>

definition preview_hero_B :: "string \<rightharpoonup> string" where
  "preview_hero_B = [''ab_preview'' \<mapsto> ''hero_headline'', ''variant'' \<mapsto> ''B'']"

definition preview_unknown :: "string \<rightharpoonup> string" where
  "preview_unknown = [''ab_preview'' \<mapsto> ''pricing_table'', ''variant'' \<mapsto> ''A'']"

definition preview_cta_yellow :: "string \<rightharpoonup> string" where
  "preview_cta_yellow = [''ab_preview'' \<mapsto> ''cta_button_color'', ''variant'' \<mapsto> ''yellow'']"

definition preview_inherited :: "string \<rightharpoonup> string" where
  "preview_inherited = [''ab_preview'' \<mapsto> ''toString'', ''variant'' \<mapsto> ''A'']"

section \<open>Properties of the arithmetic on doubles\<close>

lemma roundTiesToEven_upper: "of_int (roundTiesToEven x) \<le> x + 1 / 2"
proof -
  define f where "f = \<lfloor>x\<rfloor>"
  define d where "d = x - of_int f"
  have d0: "0 \<le> d" by (simp add: d_def f_def)
  have x: "x = of_int f + d" by (simp add: d_def)
  have "roundTiesToEven x =
      (if d < 1 / 2 then f else if d > 1 / 2 then f + 1 else if even f then f else f + 1)"
    by (simp add: roundTiesToEven_def Let_def d_def f_def)
  then have "of_int (roundTiesToEven x) \<le> of_int f + d + 1 / 2"
    using d0 by (auto split: if_splits)
  with x show ?thesis by linarith
qed

lemma roundTiesToEven_floor: "\<lfloor>x\<rfloor> \<le> roundTiesToEven x"
  by (simp add: roundTiesToEven_def Let_def)

lemma roundTiesToEven_ge:
  assumes "of_int N \<le> x"
  shows "N \<le> roundTiesToEven x"
proof -
  from assms have "N \<le> \<lfloor>x\<rfloor>" by (simp add: le_floor_iff)
  with roundTiesToEven_floor [of x] show ?thesis by linarith
qed

lemma binade_ge1:
  assumes "1 \<le> x"
  shows "0 \<le> binade x" and "2 powi binade x \<le> x"
proof -
  let ?m = "nat \<lfloor>x\<rfloor>"
  from assms have m: "0 < ?m" by simp
  from floorlog_bounds [OF m, of 2] have b: "2 ^ (floorlog 2 ?m - 1) \<le> ?m" by simp
  from m have f: "0 < floorlog 2 ?m" by (simp add: floorlog_def)
  then have e: "binade x = int (floorlog 2 ?m - 1)" using assms by (simp add: binade_def)
  show "0 \<le> binade x" unfolding e by simp
  from b have "real (2 ^ (floorlog 2 ?m - 1)) \<le> real ?m" by (rule iffD2 [OF of_nat_le_iff])
  also have "real ?m \<le> x" using assms by simp
  finally show "2 powi binade x \<le> x" unfolding e by simp
qed

lemma binade_lt1:
  assumes "0 < x" "x < 1"
  shows "binade x \<le> - 1"
proof -
  let ?k = "floorlog 2 (nat \<lfloor>1 / x\<rfloor>) - 1"
  show ?thesis
  proof (cases "x * 2 ^ ?k = 1")
    case True
    have "?k \<noteq> 0"
    proof
      assume "?k = 0"
      with True have "x = 1" by simp
      with assms show False by simp
    qed
    with True assms show ?thesis by (simp add: binade_def)
  next
    case False
    with assms show ?thesis by (simp add: binade_def)
  qed
qed

lemma ulp_pos: "0 < ulp x"
  by (simp add: ulp_def)

lemma ulp_ge1:
  assumes "1 \<le> x"
  shows "ulp x = 2 powi binade x / 2 ^ 52" and "ulp x \<le> x / 2 ^ 52"
proof -
  from binade_ge1 [OF assms] have e: "0 \<le> binade x" "2 powi binade x \<le> x" by simp_all
  then have "max (binade x) (- 1022) = binade x" by simp
  then show u: "ulp x = 2 powi binade x / 2 ^ 52"
    by (simp add: ulp_def power_int_diff)
  show "ulp x \<le> x / 2 ^ 52" unfolding u using e(2) by (simp add: divide_right_mono)
qed

lemma ulp_lt1:
  assumes "0 < x" "x < 1"
  shows "ulp x \<le> 1 / 2 ^ 53"
proof -
  from binade_lt1 [OF assms] have "max (binade x) (- 1022) - 52 \<le> - 53" by simp
  then have "(2::real) powi (max (binade x) (- 1022) - 52) \<le> 2 powi (- 53)"
    by (intro power_int_increasing) simp_all
  then show ?thesis by (simp add: ulp_def power_int_minus field_simps)
qed

lemma roundToDouble_upper:
  assumes "0 < x"
  shows "roundToDouble x \<le> x + ulp x / 2"
proof -
  have "of_int (roundTiesToEven (x / ulp x)) \<le> x / ulp x + 1 / 2"
    by (rule roundTiesToEven_upper)
  then have "ulp x * of_int (roundTiesToEven (x / ulp x)) \<le> ulp x * (x / ulp x + 1 / 2)"
    using ulp_pos [of x] by (simp only: mult_le_cancel_left_pos)
  also have "\<dots> = x + ulp x / 2" using ulp_pos [of x] by (simp add: field_simps)
  finally show ?thesis using assms by (simp add: roundToDouble_def)
qed

lemma roundToDouble_nonneg:
  assumes "0 \<le> x"
  shows "0 \<le> roundToDouble x"
proof (cases "x = 0")
  case True
  then show ?thesis by (simp add: roundToDouble_def)
next
  case False
  with assms have x: "0 < x" by simp
  then have "0 \<le> x / ulp x" using ulp_pos [of x] by simp
  then have "0 \<le> roundTiesToEven (x / ulp x)" using roundTiesToEven_ge [of 0] by simp
  then show ?thesis using x ulp_pos [of x] by (simp add: roundToDouble_def)
qed

text \<open>A number at least a relative \<open>2^-53\<close> below a positive integer rounds to less than it.\<close>

lemma roundToDouble_below:
  assumes p0: "0 \<le> p" and pn: "p \<le> real n * (1 - 1 / 2 ^ 53)" and n: "0 < n"
  shows "roundToDouble p < real n"
proof (cases "p = 0")
  case True
  then show ?thesis using n by (simp add: roundToDouble_def)
next
  case False
  with p0 have pos: "0 < p" by (metis order_le_less)
  show ?thesis
  proof (cases "p < 1")
    case True
    from roundToDouble_upper [OF pos] ulp_lt1 [OF pos True]
    have u: "roundToDouble p \<le> p + 1 / 2 ^ 54" by simp
    show ?thesis
    proof (cases "n = 1")
      case True
      with pn u show ?thesis by simp
    next
      case False
      with n have "2 \<le> real n" by simp
      with u True show ?thesis by simp
    qed
  next
    case False
    then have ge: "1 \<le> p" by simp
    from roundToDouble_upper [OF pos] ulp_ge1(2) [OF ge]
    have "roundToDouble p \<le> p + p / 2 ^ 53" by simp
    also have "\<dots> = p * (1 + 1 / 2 ^ 53)" by (simp add: field_simps)
    also have "\<dots> \<le> real n * (1 - 1 / 2 ^ 53) * (1 + 1 / 2 ^ 53)"
      using pn by (simp add: mult_right_mono)
    also have "\<dots> < real n" using n by (simp add: field_simps)
    finally show ?thesis .
  qed
qed

text \<open>A number at or above an integer below \<open>2^53\<close> rounds to at least that integer.\<close>

lemma roundToDouble_above:
  assumes ip: "real i \<le> p" and p53: "p < 2 ^ 53"
  shows "real i \<le> roundToDouble p"
proof (cases "i = 0")
  case True
  with ip roundToDouble_nonneg [of p] show ?thesis by simp
next
  case False
  with ip have ge: "1 \<le> p" by simp
  then have pos: "0 < p" by simp
  from binade_ge1 [OF ge] have e: "0 \<le> binade p" "2 powi binade p \<le> p" by simp_all
  have e53: "binade p < 53"
  proof (rule ccontr)
    assume "\<not> binade p < 53"
    then have "(2::real) powi 53 \<le> 2 powi binade p"
      by (intro power_int_increasing) simp_all
    with e(2) p53 show False by simp
  qed
  define k where "k = nat (52 - binade p)"
  have u: "ulp p = 1 / 2 ^ k"
  proof -
    have "binade p - 52 = - int k" using e53 by (simp add: k_def)
    then have "ulp p = 2 powi (- int k)" using e(1) by (simp add: ulp_def max_def)
    then show ?thesis by (simp add: power_int_minus field_simps)
  qed
  have "of_int (int i * 2 ^ k) = real i / ulp p" by (simp add: u)
  also have "\<dots> \<le> p / ulp p" using ip ulp_pos [of p] by (simp add: divide_right_mono)
  finally have "int i * 2 ^ k \<le> roundTiesToEven (p / ulp p)" by (rule roundTiesToEven_ge)
  then have "real_of_int (int i * 2 ^ k) \<le> of_int (roundTiesToEven (p / ulp p))"
    by (simp only: of_int_le_iff)
  then have "ulp p * real_of_int (int i * 2 ^ k) \<le> ulp p * of_int (roundTiesToEven (p / ulp p))"
    using ulp_pos [of p] by (simp only: mult_le_cancel_left_pos)
  moreover have "ulp p * real_of_int (int i * 2 ^ k) = real i" by (simp add: u)
  ultimately have "real i \<le> ulp p * of_int (roundTiesToEven (p / ulp p))" by (simp only:)
  moreover have "roundToDouble p = ulp p * of_int (roundTiesToEven (p / ulp p))"
    using pos by (simp add: roundToDouble_def)
  ultimately show ?thesis by (simp only:)
qed

text \<open>The rounded product of a double below 1 and a positive length stays below the length.\<close>

lemma floor_product_in_range:
  assumes r: "0 \<le> r" "r \<le> 1 - 1 / 2 ^ 53" and n: "0 < n"
  shows "0 \<le> \<lfloor>roundToDouble (r * real n)\<rfloor> \<and> \<lfloor>roundToDouble (r * real n)\<rfloor> < int n"
proof -
  let ?p = "r * real n"
  have p0: "0 \<le> ?p" using r n by simp
  have pn: "?p \<le> real n * (1 - 1 / 2 ^ 53)" using r n by (simp add: mult.commute)
  from roundToDouble_below [OF p0 pn n]
  have "\<lfloor>roundToDouble ?p\<rfloor> < int n" by (simp add: floor_less_iff)
  moreover have "0 \<le> \<lfloor>roundToDouble ?p\<rfloor>" using roundToDouble_nonneg [OF p0] by simp
  ultimately show ?thesis by simp
qed

text \<open>
  The floor of the rounded product is the floor of the exact product, unless the exact
  product is within a relative \<open>2^-53\<close> of the next integer.
\<close>

lemma floor_product_exact:
  assumes "real i \<le> p" "p \<le> real (i + 1) * (1 - 1 / 2 ^ 53)" "p < 2 ^ 53"
  shows "\<lfloor>roundToDouble p\<rfloor> = int i"
proof -
  have p0: "0 \<le> p" using assms(1) by (meson of_nat_0_le_iff order_trans)
  have "roundToDouble p < real (i + 1)"
    by (rule roundToDouble_below [OF p0 assms(2)]) simp
  moreover note roundToDouble_above [OF assms(1,3)]
  ultimately show ?thesis by (intro floor_unique) simp_all
qed


lemma roundToDouble_zero: "roundToDouble 0 = 0"
  by (simp add: roundToDouble_def)

text \<open>
  Two computations with the results a browser gives. In exact arithmetic the first floor
  would be 1, the product being just below 2, and the second result would be 15.
\<close>

lemma two_thirds_of_three: "\<lfloor>roundToDouble (6004799503160661 / 2 ^ 53 * 3)\<rfloor> = 2"
  by code_simp

lemma percent_of_29_over_200: "\<lfloor>roundToDouble (roundToDouble (29 / 200) * 100) + 1 / 2\<rfloor> = 14"
  by code_simp

section \<open>Properties of the phone-number formatter\<close>

lemma substring0: "substring s 0 n = take n s"
  by (simp add: substring_def Let_def min_def)

lemma substringFrom_drop: "substringFrom s n = drop n s"
  by (simp add: substringFrom_def min_def)

lemma substring_take_drop: "a \<le> b \<Longrightarrow> substring s a b = take (b - a) (drop a s)"
  by (auto simp add: substring_def Let_def min_def max_def)

text \<open>The four shapes of the formatted value, by the number of digits typed.\<close>

lemma formatPhone_shape:
  "formatPhone input =
     (let ds = filter isDigit input in
      if ds = [] then []
      else if length ds \<le> 3 then CHR ''0'' # ds
      else if length ds \<le> 6 then CHR ''0'' # take 3 ds @ CHR ''-'' # drop 3 ds
      else CHR ''0'' # take 3 ds @ CHR ''-'' # take 3 (drop 3 ds) @ CHR ''-'' # take 3 (drop 6 ds))"
  by (simp add: formatPhone_def Let_def substring0 substringFrom_drop substring_take_drop)

lemma isDigit_not_dash: "isDigit c \<Longrightarrow> c \<noteq> CHR ''-''"
  by (auto simp: isDigit_def)

lemma isDigit_zero: "isDigit CHR ''0''"
  by (simp add: isDigit_def)

lemma digits_nth:
  "\<forall>c\<in>set xs. isDigit c \<Longrightarrow> k < length xs \<Longrightarrow> isDigit (xs ! k) \<and> xs ! k \<noteq> CHR ''-''"
  using isDigit_not_dash nth_mem by blast

lemma one_dash:
  assumes A: "\<forall>c\<in>set A. isDigit c" and B: "\<forall>c\<in>set B. isDigit c"
    and k: "k < length (A @ CHR ''-'' # B)"
  shows "((A @ CHR ''-'' # B) ! k = CHR ''-'' \<longrightarrow> k = length A) \<and>
         ((A @ CHR ''-'' # B) ! k \<noteq> CHR ''-'' \<longrightarrow> isDigit ((A @ CHR ''-'' # B) ! k))"
proof -
  consider "k < length A" | "k = length A" | "k > length A" by linarith
  then show ?thesis
  proof cases
    case 1
    then show ?thesis using digits_nth [OF A 1] by (simp add: nth_append)
  next
    case 2
    then show ?thesis by (simp add: nth_append)
  next
    case 3
    then have "k - length A - 1 < length B" using k by simp
    from digits_nth [OF B this] 3 show ?thesis
      by (simp add: nth_append nth_Cons')
  qed
qed

lemma two_dashes:
  assumes A: "\<forall>c\<in>set A. isDigit c" and B: "\<forall>c\<in>set B. isDigit c"
    and C: "\<forall>c\<in>set C. isDigit c"
    and k: "k < length (A @ CHR ''-'' # B @ CHR ''-'' # C)"
  shows "((A @ CHR ''-'' # B @ CHR ''-'' # C) ! k = CHR ''-'' \<longrightarrow>
            k = length A \<or> k = length A + 1 + length B) \<and>
         ((A @ CHR ''-'' # B @ CHR ''-'' # C) ! k \<noteq> CHR ''-'' \<longrightarrow>
            isDigit ((A @ CHR ''-'' # B @ CHR ''-'' # C) ! k))"
proof -
  consider "k < length A" | "k = length A" | "k > length A"  by linarith
  then show ?thesis
  proof cases
    case 1
    then show ?thesis using digits_nth [OF A 1] by (simp add: nth_append)
  next
    case 2
    then show ?thesis by (simp add: nth_append)
  next
    case 3
    then have k': "k - length A - 1 < length (B @ CHR ''-'' # C)" using k by simp
    have eq: "(A @ CHR ''-'' # B @ CHR ''-'' # C) ! k = (B @ CHR ''-'' # C) ! (k - length A - 1)"
      using 3 by (simp add: nth_append nth_Cons')
    from one_dash [OF B C k'] 3 show ?thesis
      unfolding eq by auto
  qed
qed

text \<open>
  Claim C10. For every input string the formatted phone value has length at most 12 and is
  empty exactly when the input has no digit; a non-empty value starts with \<open>0\<close>, a \<open>-\<close>
  occurs only at index 4 or index 8, and every other character is a digit.
\<close>

theorem formatPhone_format:
  "length (formatPhone input) \<le> 12 \<and>
   (formatPhone input = [] \<longleftrightarrow> \<not> (\<exists>c\<in>set input. isDigit c)) \<and>
   (formatPhone input \<noteq> [] \<longrightarrow> hd (formatPhone input) = CHR ''0'') \<and>
   (\<forall>k<length (formatPhone input).
      (formatPhone input ! k = CHR ''-'' \<longrightarrow> k = 4 \<or> k = 8) \<and>
      (formatPhone input ! k \<noteq> CHR ''-'' \<longrightarrow> isDigit (formatPhone input ! k)))"
proof -
  define ds where "ds = filter isDigit input"
  have dig: "\<forall>c\<in>set ds. isDigit c" by (simp add: ds_def)
  have empty: "ds = [] \<longleftrightarrow> \<not> (\<exists>c\<in>set input. isDigit c)"
    by (auto simp: ds_def filter_empty_conv)
  have digA: "\<forall>c\<in>set (CHR ''0'' # take 3 ds). isDigit c"
    using dig isDigit_zero by (auto dest: in_set_takeD)
  have digB: "\<forall>c\<in>set (take 3 (drop 3 ds)). isDigit c"
    using dig by (auto dest: in_set_takeD in_set_dropD)
  have digB': "\<forall>c\<in>set (drop 3 ds). isDigit c"
    using dig by (auto dest: in_set_dropD)
  have digC: "\<forall>c\<in>set (take 3 (drop 6 ds)). isDigit c"
    using dig by (auto dest: in_set_takeD in_set_dropD)
  have digA0: "\<forall>c\<in>set (CHR ''0'' # ds). isDigit c"
    using dig isDigit_zero by auto
  consider (none) "ds = []" | (short) "ds \<noteq> []" "length ds \<le> 3"
    | (mid) "3 < length ds" "length ds \<le> 6" | (long) "6 < length ds"
    by fastforce
  then show ?thesis
  proof cases
    case none
    then have "formatPhone input = []"
      by (simp add: formatPhone_shape ds_def [symmetric])
    then show ?thesis using empty none by simp
  next
    case short
    then have r: "formatPhone input = CHR ''0'' # ds"
      by (simp add: formatPhone_shape ds_def [symmetric])
    show ?thesis unfolding r using short empty digits_nth [OF digA0] by auto
  next
    case mid
    then have r: "formatPhone input = (CHR ''0'' # take 3 ds) @ CHR ''-'' # drop 3 ds"
      by (auto simp add: formatPhone_shape ds_def [symmetric])
    have ne: "ds \<noteq> []" using mid by auto
    show ?thesis unfolding r using mid empty ne one_dash [OF digA digB'] by auto
  next
    case long
    then have r: "formatPhone input =
        (CHR ''0'' # take 3 ds) @ CHR ''-'' # take 3 (drop 3 ds) @ CHR ''-'' # take 3 (drop 6 ds)"
      by (auto simp add: formatPhone_shape ds_def [symmetric])
    have ne: "ds \<noteq> []" using long by auto
    show ?thesis unfolding r using long empty ne two_dashes [OF digA digB digC] by auto
  qed
qed

text \<open>
  The formatter on \<open>5a5 12-34x5678999\<close>: thirteen digits typed, twelve characters kept.
\<close>

theorem formatPhone_format_witness:
  "formatPhone ''5a5 12-34x5678999'' = ''0551-234-567'' \<and>
   length (formatPhone ''5a5 12-34x5678999'') \<le> 12 \<and>
   hd (formatPhone ''5a5 12-34x5678999'') = CHR ''0'' \<and>
   isDigit (formatPhone ''5a5 12-34x5678999'' ! 11)"
proof -
  have r: "formatPhone ''5a5 12-34x5678999'' = ''0551-234-567''"
    by code_simp
  have "(11::nat) < length (formatPhone ''5a5 12-34x5678999'')"
    and "formatPhone ''5a5 12-34x5678999'' ! 11 \<noteq> CHR ''-''"
    and "formatPhone ''5a5 12-34x5678999'' \<noteq> []"
    unfolding r by simp_all
  then show ?thesis using r formatPhone_format [of "''5a5 12-34x5678999''"] by blast
qed

section \<open>Properties of the scroll-depth tracker\<close>

lemma gtagScroll_about:
  "filter (aboutThreshold th) (gtagScroll env th') = (if th' = th \<and> gtag env \<noteq> Absent then [GtagScrollDepth th] else [])"
  by (auto simp: gtagScroll_def split: collector.splits)

lemma fbqScroll_about:
  "filter (aboutThreshold th) (fbqScroll env th') = (if th' = th \<and> fbq env \<noteq> Absent then [FbqScrollDepth th] else [])"
  by (auto simp: fbqScroll_def split: collector.splits)

lemma gtagScroll_count:
  "count_list (gtagScroll env th') (GtagScrollDepth th) \<le> 1 \<and>
   (th' \<noteq> th \<longrightarrow> count_list (gtagScroll env th') (GtagScrollDepth th) = 0) \<and>
   count_list (gtagScroll env th') (FbqScrollDepth th) = 0 \<and>
   count_list (gtagScroll env th') (LogScrollDepth th) = 0"
  by (auto simp: gtagScroll_def split: collector.splits)

lemma fbqScroll_count:
  "count_list (fbqScroll env th') (FbqScrollDepth th) \<le> 1 \<and>
   (th' \<noteq> th \<longrightarrow> count_list (fbqScroll env th') (FbqScrollDepth th) = 0) \<and>
   count_list (fbqScroll env th') (GtagScrollDepth th) = 0 \<and>
   count_list (fbqScroll env th') (LogScrollDepth th) = 0"
  by (auto simp: fbqScroll_def split: collector.splits)

lemma count_list_filter_empty:
  "filter P xs = [] \<Longrightarrow> P x \<Longrightarrow> count_list xs x = 0"
  by (induction xs) (auto split: if_splits)

text \<open>One loop iteration keeps the invariant, whichever threshold it is about.\<close>

lemma trackThreshold_quiet:
  assumes "quiet th a"
  shows "quiet th (trackThreshold env pct th' a)"
proof (cases "scrollTracked a th' \<noteq> Some True \<and> reaches pct th'")
  case False
  then show ?thesis using assms by (auto simp add: trackThreshold_def)
next
  case fire: True
  show ?thesis
  proof (cases "th' = th")
    case True
    with fire assms have none: "filter (aboutThreshold th) (emitted a) = []"
      by (simp add: quiet_def)
    have z: "count_list (emitted a) (GtagScrollDepth th) = 0"
      "count_list (emitted a) (FbqScrollDepth th) = 0"
      "count_list (emitted a) (LogScrollDepth th) = 0"
      using none by (simp_all add: count_list_filter_empty)
    show ?thesis
      using fire True z gtagScroll_count [of env th th] fbqScroll_count [of env th th]
      by (simp add: trackThreshold_def quiet_def)
  next
    case False
    then show ?thesis
      using fire assms gtagScroll_count [of env th' th] fbqScroll_count [of env th' th]
      by (auto simp add: trackThreshold_def quiet_def gtagScroll_about fbqScroll_about)
  qed
qed

lemma trackThreshold_frozen:
  assumes "scrollTracked a th = Some True"
  shows "scrollTracked (trackThreshold env pct th' a) th = Some True \<and>
         filter (aboutThreshold th) (emitted (trackThreshold env pct th' a)) =
         filter (aboutThreshold th) (emitted a)"
  using assms
  by (auto simp add: trackThreshold_def gtagScroll_about fbqScroll_about)

lemma fold_trackThreshold_quiet:
  "quiet th a \<Longrightarrow> quiet th (fold (trackThreshold env pct) ths a)"
  by (induction ths arbitrary: a) (simp_all add: trackThreshold_quiet)

lemma fold_trackThreshold_frozen:
  "scrollTracked a th = Some True \<Longrightarrow>
   scrollTracked (fold (trackThreshold env pct) ths a) th = Some True \<and>
   filter (aboutThreshold th) (emitted (fold (trackThreshold env pct) ths a)) =
   filter (aboutThreshold th) (emitted a)"
proof (induction ths arbitrary: a)
  case Nil
  then show ?case by simp
next
  case (Cons t ths)
  from trackThreshold_frozen [OF Cons.prems, of env pct t]
  show ?case using Cons.IH [of "trackThreshold env pct t a"] by simp
qed

lemma fold_trackScrollDepth_quiet:
  "quiet th a \<Longrightarrow> quiet th (fold (trackScrollDepth cfg env) ws a)"
  by (induction ws arbitrary: a) (simp_all add: trackScrollDepth_def fold_trackThreshold_quiet)

lemma fold_trackScrollDepth_frozen:
  "scrollTracked a th = Some True \<Longrightarrow>
   scrollTracked (fold (trackScrollDepth cfg env) ws a) th = Some True \<and>
   filter (aboutThreshold th) (emitted (fold (trackScrollDepth cfg env) ws a)) =
   filter (aboutThreshold th) (emitted a)"
proof (induction ws arbitrary: a)
  case Nil
  then show ?case by simp
next
  case (Cons w ws)
  from fold_trackThreshold_frozen [OF Cons.prems, of env "scrollPercent w" "scrollDepthThresholds cfg"]
  show ?case using Cons.IH [of "trackScrollDepth cfg env w a"] by (simp add: trackScrollDepth_def)
qed

lemma new_Analytics_quiet: "quiet th (new_Analytics cfg)"
  by (simp add: quiet_def new_Analytics_def)

text \<open>
  Claim C9. Over a whole page load (any sequence of scroll events, any thresholds, any
  collectors) each threshold's \<open>scroll_depth\<close> call to gtag, its call to fbq and its console
  line are made at most once; and once the threshold's flag is set, later scroll events add
  no event about it.
\<close>

theorem scroll_depth_at_most_once:
  "count_list (emitted (scrollSession cfg env ws)) (GtagScrollDepth th) \<le> 1 \<and>
   count_list (emitted (scrollSession cfg env ws)) (FbqScrollDepth th) \<le> 1 \<and>
   count_list (emitted (scrollSession cfg env ws)) (LogScrollDepth th) \<le> 1 \<and>
   (scrollTracked (scrollSession cfg env ws) th = Some True \<longrightarrow>
      filter (aboutThreshold th) (emitted (scrollSession cfg env (ws @ ws'))) =
      filter (aboutThreshold th) (emitted (scrollSession cfg env ws)))"
proof -
  have "quiet th (scrollSession cfg env ws)"
    by (simp add: scrollSession_def new_Analytics_quiet fold_trackScrollDepth_quiet)
  moreover have "scrollTracked (scrollSession cfg env ws) th = Some True \<longrightarrow>
      filter (aboutThreshold th) (emitted (scrollSession cfg env (ws @ ws'))) =
      filter (aboutThreshold th) (emitted (scrollSession cfg env ws))"
    by (simp add: scrollSession_def fold_trackScrollDepth_frozen)
  ultimately show ?thesis by (simp add: quiet_def)
qed

lemma scrollPercent_halfway: "scrollPercent halfway = Num 50"
  by code_simp

text \<open>Scrolled 29 pixels down a page with 200 pixels to scroll: 14 percent, as in the browser.\<close>

lemma scrollPercent_29_of_200:
  "scrollPercent \<lparr>scrollY = 29, scrollHeight = 1000, innerHeight = 800\<rparr> = Num 14"
  by code_simp

lemma halfway_emitted: "emitted (scrollSession ANALYTICS_CONFIG gtag_and_failing_fbq [halfway]) =
   [GtagScrollDepth 25, FbqScrollDepth 25, FbqScrollError, LogScrollDepth 25,
    GtagScrollDepth 50, FbqScrollDepth 50, FbqScrollError, LogScrollDepth 50]"
  by (simp add: scrollSession_def ANALYTICS_CONFIG_def trackScrollDepth_def scrollPercent_halfway
      trackThreshold_def new_Analytics_def gtagScroll_def fbqScroll_def gtag_and_failing_fbq_def)

lemma halfway_tracked: "scrollTracked (scrollSession ANALYTICS_CONFIG gtag_and_failing_fbq [halfway]) 50 = Some True"
  by (simp add: scrollSession_def ANALYTICS_CONFIG_def trackScrollDepth_def scrollPercent_halfway
      trackThreshold_def new_Analytics_def gtagScroll_def fbqScroll_def gtag_and_failing_fbq_def)

text \<open>Three scroll events at 50 percent: the threshold 50 fires on the first only.\<close>

theorem scroll_depth_at_most_once_witness:
  "scrollTracked (scrollSession ANALYTICS_CONFIG gtag_and_failing_fbq [halfway]) 50 = Some True \<and>
   filter (aboutThreshold 50) (emitted (scrollSession ANALYTICS_CONFIG gtag_and_failing_fbq ([halfway] @ [halfway, halfway]))) =
     [GtagScrollDepth 50, FbqScrollDepth 50, LogScrollDepth 50] \<and>
   count_list (emitted (scrollSession ANALYTICS_CONFIG gtag_and_failing_fbq [halfway, halfway, halfway])) (LogScrollDepth 50) \<le> 1"
  using scroll_depth_at_most_once [of ANALYTICS_CONFIG gtag_and_failing_fbq "[halfway]" 50 "[halfway, halfway]"]
     scroll_depth_at_most_once [of ANALYTICS_CONFIG gtag_and_failing_fbq "[halfway, halfway, halfway]" 50]
     halfway_emitted halfway_tracked
  by simp

section \<open>Properties of variant assignment\<close>

lemma lookup_own: "map_of (tests cfg) t = Some vs \<Longrightarrow> tests_lookup cfg t = AllowedVariants vs"
  by (simp add: tests_lookup_def)

lemma wf_config_entry:
  assumes "wf_config cfg" "(t, vs) \<in> set (tests cfg)"
  shows "map_of (tests cfg) t = Some vs" "t \<noteq> ''__proto__''" "vs \<noteq> []" "[] \<notin> set vs"
    "t \<notin> set object_prototype_keys"
proof -
  from assms show "map_of (tests cfg) t = Some vs" by (simp add: wf_config_def)
  from assms have np: "t \<notin> set object_prototype_keys" and "vs \<noteq> []" and "[] \<notin> set vs"
    by (auto simp: wf_config_def)
  then show "vs \<noteq> []" "[] \<notin> set vs" "t \<notin> set object_prototype_keys" by simp_all
  from np show "t \<noteq> ''__proto__''" by (auto simp: object_prototype_keys_def)
qed

lemma wf_AB_TEST_CONFIG: "wf_config AB_TEST_CONFIG"
  by (simp add: wf_config_def AB_TEST_CONFIG_def object_prototype_keys_def)

lemma element_at_random:
  assumes "0 \<le> r" "r \<le> 1 - 1 / 2 ^ 53" "vs \<noteq> []"
  shows "element_at vs \<lfloor>roundToDouble (r * real (length vs))\<rfloor> =
           Some (vs ! nat \<lfloor>roundToDouble (r * real (length vs))\<rfloor>) \<and>
         vs ! nat \<lfloor>roundToDouble (r * real (length vs))\<rfloor> \<in> set vs"
proof -
  from assms have "0 < length vs" by simp
  from floor_product_in_range [OF assms(1,2) this]
  have i: "0 \<le> \<lfloor>roundToDouble (r * real (length vs))\<rfloor>"
    "\<lfloor>roundToDouble (r * real (length vs))\<rfloor> < int (length vs)"
    by simp_all
  then have "nat \<lfloor>roundToDouble (r * real (length vs))\<rfloor> < length vs" by linarith
  then have "vs ! nat \<lfloor>roundToDouble (r * real (length vs))\<rfloor> \<in> set vs" by (rule nth_mem)
  with i show ?thesis by (simp add: element_at_def)
qed

text \<open>The stored variant wins (lines 134 to 138).\<close>

lemma assignVariant_stored:
  assumes "map_of (tests cfg) t = Some vs" "t \<noteq> ''__proto__''"
    and "\<not> getItem_throws (storage s)"
    and "items (storage s) (storageKey cfg t) = Some v" "v \<noteq> []" "v \<in> set vs"
  shows "assignVariant cfg env t s = Normal (s\<lparr>variants := assign_prop t (Some v) (variants s)\<rparr>)"
  using assms by (simp add: assignVariant_def getItem_def truthy_def toString_def
      array_includes_def lookup_own setVariant_def)

lemma assignVariant_not_stored:
  assumes "map_of (tests cfg) t = Some vs"
    and "\<not> getItem_throws (storage s)"
    and "items (storage s) (storageKey cfg t) \<notin> Some ` (set vs - {[]})"
  shows "assignVariant cfg env t s = assignFromUrl cfg env t s"
  using assms by (auto simp add: assignVariant_def getItem_def truthy_def toString_def
      array_includes_def lookup_own split: option.splits)

lemma assignFromUrl_override:
  assumes "map_of (tests cfg) t = Some vs" "t \<noteq> ''__proto__''"
    and "\<not> setItem_throws (storage s)"
    and "search env (''ab_'' @ t) = Some p" "p \<in> set vs"
  shows "assignFromUrl cfg env t s = Normal (persisted cfg t p s)"
  using assms by (simp add: assignFromUrl_def array_includes_def lookup_own setVariant_def
      setItem_def persisted_def)

lemma assignFromUrl_no_override:
  assumes "map_of (tests cfg) t = Some vs"
    and "search env (''ab_'' @ t) \<notin> Some ` set vs"
  shows "assignFromUrl cfg env t s = assignRandom cfg env t s"
  using assms by (auto simp add: assignFromUrl_def array_includes_def lookup_own
      split: option.splits)

lemma assignRandom_draw:
  assumes "map_of (tests cfg) t = Some vs" "t \<noteq> ''__proto__''" "vs \<noteq> []"
    and "\<not> setItem_throws (storage s)"
    and "0 \<le> math_random env (draws s)" "math_random env (draws s) \<le> 1 - 1 / 2 ^ 53"
  shows "assignRandom cfg env t s =
           Normal (persisted cfg t
                     (vs ! nat \<lfloor>roundToDouble (math_random env (draws s) * real (length vs))\<rfloor>)
                     (s\<lparr>draws := Suc (draws s)\<rparr>))"
  using assms element_at_random [OF assms(5,6,3)]
  by (simp add: assignRandom_def randomDraw_def lookup_own storeSelected_def setVariant_def
      setItem_def persisted_def toString_def)

text \<open>Property assignment: the keys, the entries and the value read back.\<close>

lemma map_fst_assign_prop:
  "map fst (assign_prop k v ps) = (if k \<in> fst ` set ps then map fst ps else map fst ps @ [k])"
  by (induction ps) (force+)

lemma set_assign_prop: "set (assign_prop k v ps) \<subseteq> insert (k, v) (set ps)"
  by (induction ps) (auto split: if_splits)

lemma map_of_assign_prop: "map_of (assign_prop k v ps) k = Some v"
  by (induction ps) auto

text \<open>A completed assignment, whichever way it went.\<close>

lemma assignVariant_step:
  assumes own: "map_of (tests cfg) t = Some vs" "t \<noteq> ''__proto__''"
    and fin: "assignVariant cfg env t s = Normal s'"
  shows "\<exists>v. variants s' = assign_prop t v (variants s) \<and>
           (random_ok env \<and> vs \<noteq> [] \<longrightarrow> (\<exists>l. v = Some l \<and> l \<in> set vs)) \<and>
           document s' = document s \<and> calls s' = calls s \<and>
           getItem_throws (storage s') = getItem_throws (storage s) \<and>
           setItem_throws (storage s') = setItem_throws (storage s)"
proof (cases "items (storage s) (storageKey cfg t) \<in> Some ` (set vs - {[]})")
  case True
  then obtain v where v: "items (storage s) (storageKey cfg t) = Some v" "v \<noteq> []" "v \<in> set vs"
    by auto
  from fin have g: "\<not> getItem_throws (storage s)"
    by (auto simp: assignVariant_def getItem_def split: if_splits)
  from assignVariant_stored [OF own(1,2) g v] fin v show ?thesis by auto
next
  case False
  from fin have g: "\<not> getItem_throws (storage s)"
    by (auto simp: assignVariant_def getItem_def split: if_splits)
  from assignVariant_not_stored [OF own(1) g False] fin
  have u: "assignFromUrl cfg env t s = Normal s'" by simp
  show ?thesis
  proof (cases "search env (''ab_'' @ t) \<in> Some ` set vs")
    case True
    then obtain p where p: "search env (''ab_'' @ t) = Some p" "p \<in> set vs" by auto
    from u p own show ?thesis
      by (auto simp add: assignFromUrl_def array_includes_def lookup_own setVariant_def
          setItem_def split: if_splits)
  next
    case False
    from assignFromUrl_no_override [OF own(1) False] u
    have r: "assignRandom cfg env t s = Normal s'" by simp
    have v: "random_ok env \<and> vs \<noteq> [] \<longrightarrow>
        (\<exists>l. element_at vs \<lfloor>roundToDouble (math_random env (draws s) * real (length vs))\<rfloor> = Some l \<and> l \<in> set vs)"
    proof
      assume a: "random_ok env \<and> vs \<noteq> []"
      then have b: "0 \<le> math_random env (draws s)" "math_random env (draws s) \<le> 1 - 1 / 2 ^ 53"
        by (simp_all add: random_ok_def)
      from a have "vs \<noteq> []" by simp
      from element_at_random [OF b this]
      show "\<exists>l. element_at vs \<lfloor>roundToDouble (math_random env (draws s) * real (length vs))\<rfloor> = Some l \<and> l \<in> set vs"
        by simp
    qed
    from r own have "variants s' =
        assign_prop t (element_at vs \<lfloor>roundToDouble (math_random env (draws s) * real (length vs))\<rfloor>) (variants s) \<and>
        document s' = document s \<and> calls s' = calls s \<and>
        getItem_throws (storage s') = getItem_throws (storage s) \<and>
        setItem_throws (storage s') = setItem_throws (storage s)"
      by (auto simp add: assignRandom_def randomDraw_def lookup_own storeSelected_def
          setVariant_def setItem_def split: if_splits)
    with v show ?thesis by blast
  qed
qed

text \<open>With working storage an assignment for a configured test completes.\<close>

lemma assignVariant_total:
  assumes own: "map_of (tests cfg) t = Some vs"
    and ok: "\<not> getItem_throws (storage s)" "\<not> setItem_throws (storage s)"
  shows "\<exists>s'. assignVariant cfg env t s = Normal s'"
  using assms
  by (auto simp add: assignVariant_def assignFromUrl_def assignRandom_def randomDraw_def
      storeSelected_def getItem_def setItem_def setVariant_def array_includes_def lookup_own
      split: option.splits)

text \<open>The loop of \<open>initialize\<close> over the configured tests.\<close>

lemma forEach_assign:
  assumes wf: "wf_config cfg"
  shows "set ts \<subseteq> fst ` set (tests cfg) \<Longrightarrow> distinct (map fst (variants s) @ ts) \<Longrightarrow>
         forEach (assignVariant cfg env) ts s = Normal s' \<Longrightarrow>
         map fst (variants s') = map fst (variants s) @ ts \<and>
         (random_ok env \<and> (\<forall>e\<in>set (variants s). valid_entry cfg e) \<longrightarrow>
            (\<forall>e\<in>set (variants s'). valid_entry cfg e)) \<and>
         document s' = document s \<and> calls s' = calls s"
proof (induction ts arbitrary: s)
  case Nil
  then show ?case by simp
next
  case (Cons t ts)
  from Cons.prems(1) obtain vs where tv: "(t, vs) \<in> set (tests cfg)" by auto
  note e = wf_config_entry [OF wf tv]
  from Cons.prems(3) obtain s1 where s1: "assignVariant cfg env t s = Normal s1"
    and rest: "forEach (assignVariant cfg env) ts s1 = Normal s'"
    by (auto split: completion.splits)
  from assignVariant_step [OF e(1,2) s1] obtain v where
    v: "variants s1 = assign_prop t v (variants s)"
    and vl: "random_ok env \<and> vs \<noteq> [] \<longrightarrow> (\<exists>l. v = Some l \<and> l \<in> set vs)"
    and same: "document s1 = document s" "calls s1 = calls s"
    by blast
  from Cons.prems(2) have fresh: "t \<notin> fst ` set (variants s)" by auto
  with v have names: "map fst (variants s1) = map fst (variants s) @ [t]"
    by (simp add: map_fst_assign_prop)
  with Cons.prems(2) have d: "distinct (map fst (variants s1) @ ts)" by simp
  from Cons.prems(1) have sub: "set ts \<subseteq> fst ` set (tests cfg)" by simp
  from Cons.IH [OF sub d rest]
  have ih: "map fst (variants s') = map fst (variants s1) @ ts"
    "random_ok env \<and> (\<forall>e\<in>set (variants s1). valid_entry cfg e) \<longrightarrow>
       (\<forall>e\<in>set (variants s'). valid_entry cfg e)"
    "document s' = document s1" "calls s' = calls s1"
    by simp_all
  have val: "random_ok env \<and> (\<forall>e\<in>set (variants s). valid_entry cfg e) \<longrightarrow>
      (\<forall>e\<in>set (variants s'). valid_entry cfg e)"
  proof (intro impI, elim conjE)
    assume a: "random_ok env" "\<forall>e\<in>set (variants s). valid_entry cfg e"
    from vl a(1) e(3) obtain l where l: "v = Some l" "l \<in> set vs" by blast
    then have "valid_entry cfg (t, v)" using e(1) by (simp add: valid_entry_def)
    with a(2) set_assign_prop [of t v "variants s"] v
    have "\<forall>e\<in>set (variants s1). valid_entry cfg e" by auto
    with ih(2) a(1) show "\<forall>e\<in>set (variants s'). valid_entry cfg e" by blast
  qed
  from ih(1) names have n: "map fst (variants s') = map fst (variants s) @ t # ts" by simp
  from ih(3) same(1) have dd: "document s' = document s" by simp
  from ih(4) same(2) have cc: "calls s' = calls s" by simp
  from n val dd cc show ?case by blast
qed

lemma forEach_assign_total:
  assumes "\<forall>t\<in>set ts. map_of (tests cfg) t \<noteq> None"
    and "\<forall>t\<in>set ts. t \<noteq> ''__proto__''"
    and "\<not> getItem_throws (storage s)" "\<not> setItem_throws (storage s)"
  shows "\<exists>s'. forEach (assignVariant cfg env) ts s = Normal s'"
  using assms
proof (induction ts arbitrary: s)
  case Nil
  then show ?case by simp
next
  case (Cons t ts)
  from Cons.prems(1) obtain vs where own: "map_of (tests cfg) t = Some vs" by auto
  from Cons.prems(2) have np: "t \<noteq> ''__proto__''" by simp
  from assignVariant_total [OF own Cons.prems(3,4)] obtain s1
    where s1: "assignVariant cfg env t s = Normal s1" by blast
  from assignVariant_step [OF own np s1]
  have ok: "\<not> getItem_throws (storage s1)" "\<not> setItem_throws (storage s1)"
    using Cons.prems(3,4) by auto
  from Cons.IH [OF _ _ ok] Cons.prems(1,2) s1 show ?case by simp
qed

lemma wf_config_names:
  assumes "wf_config cfg"
  shows "\<forall>t\<in>set (map fst (tests cfg)). map_of (tests cfg) t \<noteq> None"
    and "\<forall>t\<in>set (map fst (tests cfg)). t \<noteq> ''__proto__''"
  using wf_config_entry [OF assms] by fastforce+

section \<open>Properties of variant application\<close>

lemma applyCtaButton_twice: "applyCtaButton v (applyCtaButton v b) = applyCtaButton v b"
  by (simp add: applyCtaButton_def setAttribute_def classList_add_def classList_remove_def
      setStyle_def Let_def)

lemma applyCtaButtonColorVariant_twice:
  "applyCtaButtonColorVariant v (applyCtaButtonColorVariant v pg) = applyCtaButtonColorVariant v pg"
  by (simp add: applyCtaButtonColorVariant_def applyCtaButton_twice)

lemma applyHeroHeadlineVariant_twice:
  "applyHeroHeadlineVariant v (applyHeroHeadlineVariant v pg) = applyHeroHeadlineVariant v pg"
  by (simp add: applyHeroHeadlineVariant_def setAttribute_def Let_def split: option.splits)

lemma applyWhyNowTextVariant_twice:
  "applyWhyNowTextVariant v (applyWhyNowTextVariant v pg) = applyWhyNowTextVariant v pg"
  by (simp add: applyWhyNowTextVariant_def setAttribute_def Let_def split: option.splits)

text \<open>
  Claim C8. Applying a test's variant to the page a second time changes nothing: the
  attributes, class lists, inline styles and contents of the targeted elements are those
  left by the first application. This holds for every test name and every variant.
\<close>

theorem applyTest_idempotent:
  "applyTest testName variant (applyTest testName variant pg) = applyTest testName variant pg"
  by (simp add: applyTest_def applyHeroHeadlineVariant_twice applyWhyNowTextVariant_twice
      applyCtaButtonColorVariant_twice)

text \<open>The yellow variant on a page with one primary button.\<close>

lemma yellow_once:
  "cta_buttons (applyTest ''cta_button_color'' (Some ''yellow'') sample_page) =
   [\<lparr>attributes = [''data-variant'' \<mapsto> ''yellow''], classList = [''btn'', ''btn--yellow''],
     inline_style = [''background'' \<mapsto> ''#F2C526'', ''color'' \<mapsto> ''#000''], inner = Text []\<rparr>]"
  by (simp add: applyTest_def applyCtaButtonColorVariant_def applyCtaButton_def sample_page_def
      plain_element_def setAttribute_def classList_add_def classList_remove_def setStyle_def
      toString_def)

theorem applyTest_idempotent_witness:
  "cta_buttons (applyTest ''cta_button_color'' (Some ''yellow'')
     (applyTest ''cta_button_color'' (Some ''yellow'') sample_page)) =
   [\<lparr>attributes = [''data-variant'' \<mapsto> ''yellow''], classList = [''btn'', ''btn--yellow''],
     inline_style = [''background'' \<mapsto> ''#F2C526'', ''color'' \<mapsto> ''#000''], inner = Text []\<rparr>]"
  using applyTest_idempotent [of "''cta_button_color''" "Some ''yellow''" sample_page] yellow_once
  by simp


text \<open>The loop of \<open>applyVariants\<close>: the calls it records and the page it leaves.\<close>

lemma applyTest_no_case: "t \<notin> set switch_cases \<Longrightarrow> applyTest t v pg = pg"
  by (simp add: applyTest_def switch_cases_def)

lemma fold_applyVariant:
  "fold applyVariant es s =
     s\<lparr>calls := calls s @ applyCalls es,
       document := fold (\<lambda>(t, v). applyTest t v) es (document s)\<rparr>"
proof (induction es arbitrary: s)
  case Nil
  then show ?case by (simp add: applyCalls_def)
next
  case (Cons e es)
  obtain t v where e: "e = (t, v)" by (cases e)
  have step: "applyVariant (t, v) s =
      (if t \<in> set switch_cases
       then s\<lparr>calls := calls s @ [ApplyCall t v], document := applyTest t v (document s)\<rparr>
       else s)"
    by (simp add: applyVariant_def)
  have "fold applyVariant (e # es) s = fold applyVariant es (applyVariant e s)" by simp
  also have "\<dots> = (applyVariant e s)\<lparr>calls := calls (applyVariant e s) @ applyCalls es,
      document := fold (\<lambda>(t, v). applyTest t v) es (document (applyVariant e s))\<rparr>"
    by (rule Cons.IH)
  also have "\<dots> = s\<lparr>calls := calls s @ applyCalls (e # es),
      document := fold (\<lambda>(t, v). applyTest t v) (e # es) (document s)\<rparr>"
    by (cases "t \<in> set switch_cases") (simp_all add: step applyCalls_def e applyTest_no_case)
  finally show ?case .
qed

lemma applyVariants_eq:
  "applyVariants s =
     s\<lparr>calls := calls s @ applyCalls (variants s),
       document := fold (\<lambda>(t, v). applyTest t v) (variants s) (document s)\<rparr>"
  by (simp add: applyVariants_def fold_applyVariant)

lemma variants_applyVariants: "variants (applyVariants s) = variants s"
  by (simp add: applyVariants_eq)

text \<open>Each apply method leaves the elements of the other tests and the indicators alone.\<close>

lemma applyHeroHeadlineVariant_frame:
  "why_now (applyHeroHeadlineVariant v pg) = why_now pg"
  "urgency_final (applyHeroHeadlineVariant v pg) = urgency_final pg"
  "cta_buttons (applyHeroHeadlineVariant v pg) = cta_buttons pg"
  "preview_indicators (applyHeroHeadlineVariant v pg) = preview_indicators pg"
  by (simp_all add: applyHeroHeadlineVariant_def Let_def split: option.splits)

lemma applyWhyNowTextVariant_frame:
  "hero (applyWhyNowTextVariant v pg) = hero pg"
  "cta_buttons (applyWhyNowTextVariant v pg) = cta_buttons pg"
  "preview_indicators (applyWhyNowTextVariant v pg) = preview_indicators pg"
  by (simp_all add: applyWhyNowTextVariant_def Let_def split: option.splits)

lemma applyCtaButtonColorVariant_frame:
  "hero (applyCtaButtonColorVariant v pg) = hero pg"
  "why_now (applyCtaButtonColorVariant v pg) = why_now pg"
  "urgency_final (applyCtaButtonColorVariant v pg) = urgency_final pg"
  "preview_indicators (applyCtaButtonColorVariant v pg) = preview_indicators pg"
  by (simp_all add: applyCtaButtonColorVariant_def)

lemma preview_indicators_applyTest:
  "preview_indicators (applyTest t v pg) = preview_indicators pg"
  by (simp add: applyTest_def applyHeroHeadlineVariant_frame applyWhyNowTextVariant_frame
      applyCtaButtonColorVariant_frame)

text \<open>Each apply method puts its variant on the page.\<close>

lemma hero_shows_applied: "hero_shows v (applyHeroHeadlineVariant v pg)"
  by (simp add: hero_shows_def applyHeroHeadlineVariant_def setAttribute_def Let_def
      split: option.splits)

lemma why_now_shows_applied: "why_now_shows v (applyWhyNowTextVariant v pg)"
  by (simp add: why_now_shows_def applyWhyNowTextVariant_def setAttribute_def Let_def
      split: option.splits)

lemma button_shows_applied: "button_shows v (applyCtaButton v b)"
  by (simp add: button_shows_def applyCtaButton_def setAttribute_def classList_add_def
      classList_remove_def setStyle_def Let_def)

lemma buttons_show_applied:
  "list_all (button_shows v) (cta_buttons (applyCtaButtonColorVariant v pg))"
  by (simp add: applyCtaButtonColorVariant_def list_all_iff button_shows_applied)

lemma variant_shown_applied: "variant_shown t v (applyTest t v pg)"
  by (simp add: variant_shown_def applyTest_def hero_shows_applied why_now_shows_applied
      buttons_show_applied)

text \<open>What one test shows is not disturbed by the other tests or by the indicator.\<close>

lemma hero_shows_frame:
  "hero_shows v (applyWhyNowTextVariant v' pg) = hero_shows v pg"
  "hero_shows v (applyCtaButtonColorVariant v' pg) = hero_shows v pg"
  "hero_shows v (pg\<lparr>preview_indicators := inds\<rparr>) = hero_shows v pg"
  by (simp_all add: hero_shows_def applyWhyNowTextVariant_frame applyCtaButtonColorVariant_frame)

lemma why_now_shows_frame:
  "why_now_shows v (applyHeroHeadlineVariant v' pg) = why_now_shows v pg"
  "why_now_shows v (applyCtaButtonColorVariant v' pg) = why_now_shows v pg"
  "why_now_shows v (pg\<lparr>preview_indicators := inds\<rparr>) = why_now_shows v pg"
  by (simp_all add: why_now_shows_def applyHeroHeadlineVariant_frame
      applyCtaButtonColorVariant_frame cong: option.case_cong)

lemma variant_shown_frame:
  assumes "t' \<noteq> t"
  shows "variant_shown t v (applyTest t' v' pg) = variant_shown t v pg"
proof -
  consider "t' = ''hero_headline''" | "t' = ''why_now_text''" | "t' = ''cta_button_color''"
    | "t' \<notin> set switch_cases"
    by (auto simp: switch_cases_def)
  then show ?thesis
  proof cases
    case 1
    with assms have "t \<noteq> ''hero_headline''" by simp
    with 1 show ?thesis
      by (simp add: variant_shown_def applyTest_def why_now_shows_frame
          applyHeroHeadlineVariant_frame)
  next
    case 2
    with assms have "t \<noteq> ''why_now_text''" by simp
    with 2 show ?thesis
      by (simp add: variant_shown_def applyTest_def hero_shows_frame
          applyWhyNowTextVariant_frame)
  next
    case 3
    with assms have "t \<noteq> ''cta_button_color''" by simp
    with 3 show ?thesis
      by (simp add: variant_shown_def applyTest_def hero_shows_frame why_now_shows_frame)
  next
    case 4
    then show ?thesis by (simp add: applyTest_no_case)
  qed
qed

lemma variant_shown_indicators:
  "variant_shown t v (pg\<lparr>preview_indicators := inds\<rparr>) = variant_shown t v pg"
  by (simp add: variant_shown_def hero_shows_frame why_now_shows_frame)

lemma variant_shown_kept:
  "t \<notin> fst ` set es \<Longrightarrow>
   variant_shown t v (fold (\<lambda>(t, v). applyTest t v) es pg) = variant_shown t v pg"
proof (induction es arbitrary: pg)
  case Nil
  then show ?case by simp
next
  case (Cons e es)
  obtain t' v' where e: "e = (t', v')" by (cases e)
  with Cons.prems have "t' \<noteq> t" "t \<notin> fst ` set es" by auto
  with Cons.IH [of "applyTest t' v' pg"] show ?case by (simp add: e variant_shown_frame)
qed

lemma variant_shown_fold:
  "distinct (map fst es) \<Longrightarrow> (t, v) \<in> set es \<Longrightarrow>
   variant_shown t v (fold (\<lambda>(t, v). applyTest t v) es pg)"
proof (induction es arbitrary: pg)
  case Nil
  then show ?case by simp
next
  case (Cons e es)
  obtain t' v' where e: "e = (t', v')" by (cases e)
  show ?case
  proof (cases "(t, v) = e")
    case True
    with Cons.prems(1) have "t \<notin> fst ` set es" by force
    from variant_shown_kept [OF this] True [symmetric] show ?thesis
      by (simp add: variant_shown_applied)
  next
    case False
    with Cons.prems have "distinct (map fst es)" "(t, v) \<in> set es" by auto
    from Cons.IH [OF this] show ?thesis by (simp add: e)
  qed
qed

section \<open>Properties of the resolved variants\<close>

lemma fold_trackImpression:
  "fold (trackImpression env) es s = s\<lparr>calls := calls s @ concat (map (impressionCalls env) es)\<rparr>"
  by (induction es arbitrary: s) (simp_all add: trackImpression_def)

lemma trackImpressions_eq:
  "trackImpressions cfg env s =
     (if analyticsEnabled cfg
      then s\<lparr>calls := calls s @ concat (map (impressionCalls env) (variants s))\<rparr> else s)"
  by (simp add: trackImpressions_def fold_trackImpression)

lemma variants_trackImpressions: "variants (trackImpressions cfg env s) = variants s"
  by (simp add: trackImpressions_eq)

lemma tests_lookup_Allowed:
  "tests_lookup cfg t = AllowedVariants vs \<longleftrightarrow> map_of (tests cfg) t = Some vs"
  by (auto simp: tests_lookup_def split: option.splits)

text \<open>Preview entry, spelled out.\<close>

lemma preview_entryD:
  assumes "preview_entry cfg env"
  obtains T V vs where "search env ''ab_preview'' = Some T" "search env ''variant'' = Some V"
    "T \<noteq> []" "V \<noteq> []" "map_of (tests cfg) T = Some vs" "V \<in> set vs"
  using assms by (auto simp: preview_entry_def split: option.splits)

text \<open>The variants that preview mode leaves, when it completes.\<close>

lemma handlePreviewMode_variants:
  assumes wf: "wf_config cfg"
    and fin: "handlePreviewMode cfg env (s\<lparr>variants := []\<rparr>) = Normal s'"
  shows "variants s' =
           (if preview_entry cfg env
            then [(toString (search env ''ab_preview''), search env ''variant'')] else [])"
proof (cases "preview_entry cfg env")
  case True
  then obtain T V vs where p: "search env ''ab_preview'' = Some T" "search env ''variant'' = Some V"
    "T \<noteq> []" "V \<noteq> []" "map_of (tests cfg) T = Some vs" "V \<in> set vs"
    by (rule preview_entryD)
  from p(5) have "(T, vs) \<in> set (tests cfg)" by (rule map_of_SomeD)
  from wf_config_entry(2) [OF wf this] have np: "T \<noteq> ''__proto__''" .
  from fin p np True show ?thesis
    by (auto simp add: handlePreviewMode_def Let_def truthy_def toString_def lookup_own
        setItem_def setVariant_def addPreviewIndicator_def variants_applyVariants
        split: if_splits)
next
  case False
  with fin show ?thesis
    by (auto simp add: handlePreviewMode_def preview_entry_def Let_def truthy_def toString_def
        tests_lookup_def split: option.splits tests_entry.splits if_splits)
qed

text \<open>
  A preview of \<open>cta_button_color\<close> with \<open>yellow\<close>: the load completes, and the configured
  test \<open>hero_headline\<close> has no resolved variant.
\<close>

theorem resolved_variant_counterexample:
  "(''hero_headline'', [''A'', ''B'']) \<in> set (tests AB_TEST_CONFIG) \<and>
   initialized (domContentLoaded AB_TEST_CONFIG (visitor preview_cta_yellow)
     (start (working_storage Map.empty))) \<and>
   map_of (variants (after_load (domContentLoaded AB_TEST_CONFIG (visitor preview_cta_yellow)
     (start (working_storage Map.empty))))) ''hero_headline'' = None"
  by (simp add: domContentLoaded_def new_ABTesting_def initialize_def handlePreviewMode_def
      Let_def truthy_def toString_def tests_lookup_def setItem_def setVariant_def
      addPreviewIndicator_def variants_applyVariants storageKey_def AB_TEST_CONFIG_def
      visitor_def start_def working_storage_def preview_cta_yellow_def initialized_def
      after_load_def)

text \<open>
  Claim C1, amended. After an initialization without the preview parameter has completed,
  every configured test has a resolved variant and it is a label of the test's allowed
  set, whatever was stored, given in the URL or drawn at random. After a preview load has
  completed, the previewed test alone has a resolved variant, the allowed label that was
  asked for, and after a malformed preview no test has one. In all cases every entry of
  \<open>variants\<close> is an allowed label of its test.
\<close>

theorem resolved_variant_allowed:
  assumes wf: "wf_config cfg" and rnd: "random_ok env"
    and init: "domContentLoaded cfg env s = Initialized s'"
  shows "(search env ''ab_preview'' = None \<longrightarrow>
            map fst (variants s') = map fst (tests cfg) \<and>
            (\<forall>(t, vs)\<in>set (tests cfg). \<exists>l. l \<in> set vs \<and> map_of (variants s') t = Some (Some l))) \<and>
         (search env ''ab_preview'' \<noteq> None \<longrightarrow>
            variants s' =
              (if preview_entry cfg env
               then [(toString (search env ''ab_preview''), search env ''variant'')] else [])) \<and>
         (\<forall>entry\<in>set (variants s'). valid_entry cfg entry)"
proof (cases "search env ''ab_preview''")
  case (Some a)
  with init have "handlePreviewMode cfg env (s\<lparr>variants := []\<rparr>) = Normal s'"
    by (auto simp: domContentLoaded_def new_ABTesting_def initialize_def split: completion.splits)
  from handlePreviewMode_variants [OF wf this]
  have v: "variants s' =
      (if preview_entry cfg env
       then [(toString (search env ''ab_preview''), search env ''variant'')] else [])" .
  have "\<forall>entry\<in>set (variants s'). valid_entry cfg entry"
  proof (cases "preview_entry cfg env")
    case True
    then obtain T V vs where "search env ''ab_preview'' = Some T" "search env ''variant'' = Some V"
      "T \<noteq> []" "V \<noteq> []" "map_of (tests cfg) T = Some vs" "V \<in> set vs"
      by (rule preview_entryD)
    with v True show ?thesis by (simp add: valid_entry_def toString_def)
  next
    case False
    with v show ?thesis by simp
  qed
  with v Some show ?thesis by simp
next
  case None
  with init obtain s1 where
    loop: "forEach (assignVariant cfg env) (map fst (tests cfg)) (s\<lparr>variants := []\<rparr>) = Normal s1"
    and s': "s' = trackImpressions cfg env (applyVariants s1)"
    by (auto simp: domContentLoaded_def new_ABTesting_def initialize_def split: completion.splits)
  from wf have d: "distinct (map fst (variants (s\<lparr>variants := []\<rparr>)) @ map fst (tests cfg))"
    by (simp add: wf_config_def)
  have sub: "set (map fst (tests cfg)) \<subseteq> fst ` set (tests cfg)" by simp
  from forEach_assign [OF wf sub d loop, of ] rnd
  have "map fst (variants s1) = map fst (tests cfg)" "\<forall>e\<in>set (variants s1). valid_entry cfg e"
    by simp_all
  with s' have names: "map fst (variants s') = map fst (tests cfg)"
    and valid: "\<forall>e\<in>set (variants s'). valid_entry cfg e"
    by (simp_all add: variants_trackImpressions variants_applyVariants)
  from wf names have dv: "distinct (map fst (variants s'))" by (simp add: wf_config_def)
  have "\<exists>l. l \<in> set vs \<and> map_of (variants s') t = Some (Some l)" if tv: "(t, vs) \<in> set (tests cfg)"
    for t vs
  proof -
    from tv have "t \<in> set (map fst (variants s'))" unfolding names by force
    then obtain v where e: "(t, v) \<in> set (variants s')" by auto
    with valid have "valid_entry cfg (t, v)" by blast
    moreover from wf_config_entry(1) [OF wf tv] have "map_of (tests cfg) t = Some vs" .
    ultimately obtain l where l: "v = Some l" "l \<in> set vs"
      by (auto simp: valid_entry_def split: option.splits)
    from map_of_is_SomeI [OF dv e] l show ?thesis by simp
  qed
  with names valid None show ?thesis by auto
qed

text \<open>A first visit with empty storage and no URL parameter.\<close>

lemma random_ok_visitor: "random_ok (visitor params)"
  by (simp add: random_ok_def visitor_def)

lemma load_fresh_visitor:
  "domContentLoaded AB_TEST_CONFIG (visitor Map.empty) (start (working_storage Map.empty)) =
   Initialized (after_load (domContentLoaded AB_TEST_CONFIG (visitor Map.empty) (start (working_storage Map.empty))))"
  by (simp add: domContentLoaded_def new_ABTesting_def initialize_def visitor_def start_def
      working_storage_def AB_TEST_CONFIG_def assignVariant_def assignFromUrl_def assignRandom_def
      storeSelected_def getItem_def setItem_def setVariant_def randomDraw_def array_includes_def
      tests_lookup_def truthy_def toString_def storageKey_def element_at_def after_load_def
      roundToDouble_zero)

lemma variants_fresh_visitor:
  "variants (after_load (domContentLoaded AB_TEST_CONFIG (visitor Map.empty)
     (start (working_storage Map.empty)))) =
   [(''hero_headline'', Some ''A''), (''why_now_text'', Some ''A''),
    (''cta_button_color'', Some ''blue'')]"
  by (simp add: domContentLoaded_def new_ABTesting_def initialize_def visitor_def start_def
      working_storage_def AB_TEST_CONFIG_def assignVariant_def assignFromUrl_def assignRandom_def
      storeSelected_def getItem_def setItem_def setVariant_def randomDraw_def array_includes_def
      tests_lookup_def truthy_def toString_def storageKey_def element_at_def after_load_def
      roundToDouble_zero variants_trackImpressions variants_applyVariants)

theorem resolved_variant_allowed_witness:
  "wf_config AB_TEST_CONFIG \<and> random_ok (visitor Map.empty) \<and>
   search (visitor Map.empty) ''ab_preview'' = None \<and>
   initialized (domContentLoaded AB_TEST_CONFIG (visitor Map.empty) (start (working_storage Map.empty))) \<and>
   map fst (variants (after_load
     (domContentLoaded AB_TEST_CONFIG (visitor Map.empty) (start (working_storage Map.empty))))) =
     [''hero_headline'', ''why_now_text'', ''cta_button_color''] \<and>
   map_of (variants (after_load
     (domContentLoaded AB_TEST_CONFIG (visitor Map.empty) (start (working_storage Map.empty)))))
     ''cta_button_color'' = Some (Some ''blue'') \<and>
   ''blue'' \<in> set [''blue'', ''yellow'']"
proof -
  have s: "search (visitor Map.empty) ''ab_preview'' = None" by (simp add: visitor_def)
  have t: "map fst (tests AB_TEST_CONFIG) = [''hero_headline'', ''why_now_text'', ''cta_button_color'']"
    by (simp add: AB_TEST_CONFIG_def)
  from resolved_variant_allowed [OF wf_AB_TEST_CONFIG random_ok_visitor load_fresh_visitor] s t
  have "map fst (variants (after_load
     (domContentLoaded AB_TEST_CONFIG (visitor Map.empty) (start (working_storage Map.empty))))) =
     [''hero_headline'', ''why_now_text'', ''cta_button_color'']" by simp
  moreover have "initialized (domContentLoaded AB_TEST_CONFIG (visitor Map.empty) (start (working_storage Map.empty)))"
    by (subst load_fresh_visitor) (simp add: initialized_def)
  moreover have "map_of (variants (after_load
     (domContentLoaded AB_TEST_CONFIG (visitor Map.empty) (start (working_storage Map.empty)))))
     ''cta_button_color'' = Some (Some ''blue'')"
    by (simp add: variants_fresh_visitor)
  ultimately show ?thesis using wf_AB_TEST_CONFIG random_ok_visitor s by simp
qed

text \<open>
  Claim C2. A stored variant that is in the allowed set of its test is the resolved variant:
  no random number is drawn and the storage is left as it was. This holds with or without
  a URL parameter for the test.
\<close>

theorem stored_variant_kept:
  assumes wf: "wf_config cfg" and t: "(T, vs) \<in> set (tests cfg)" and v: "V \<in> set vs"
    and get: "\<not> getItem_throws (storage s)"
    and stored: "items (storage s) (storageKey cfg T) = Some V"
  shows "assignVariant cfg env T s = Normal (s\<lparr>variants := assign_prop T (Some V) (variants s)\<rparr>) \<and>
         map_of (variants (final (assignVariant cfg env T s))) T = Some (Some V) \<and>
         draws (final (assignVariant cfg env T s)) = draws s \<and>
         storage (final (assignVariant cfg env T s)) = storage s"
proof -
  note e = wf_config_entry [OF wf t]
  from e(4) v have "V \<noteq> []" by auto
  from assignVariant_stored [OF e(1,2) get stored this v]
  show ?thesis by (simp add: final_def map_of_assign_prop)
qed

text \<open>A returning visitor with \<open>B\<close> stored for \<open>hero_headline\<close>.\<close>

theorem stored_variant_kept_witness:
  "wf_config AB_TEST_CONFIG \<and> (''hero_headline'', [''A'', ''B'']) \<in> set (tests AB_TEST_CONFIG) \<and>
   items (storage (start (working_storage returning))) (storageKey AB_TEST_CONFIG ''hero_headline'') = Some ''B'' \<and>
   variants (final (assignVariant AB_TEST_CONFIG (visitor Map.empty) ''hero_headline''
     (start (working_storage returning)))) = [(''hero_headline'', Some ''B'')] \<and>
   draws (final (assignVariant AB_TEST_CONFIG (visitor Map.empty) ''hero_headline''
     (start (working_storage returning)))) = 0"
proof -
  have t: "(''hero_headline'', [''A'', ''B'']) \<in> set (tests AB_TEST_CONFIG)"
    by (simp add: AB_TEST_CONFIG_def)
  have v: "''B'' \<in> set [''A'', ''B'']" by simp
  have g: "\<not> getItem_throws (storage (start (working_storage returning)))"
    by (simp add: start_def working_storage_def)
  have i: "items (storage (start (working_storage returning)))
      (storageKey AB_TEST_CONFIG ''hero_headline'') = Some ''B''"
    by (simp add: start_def working_storage_def returning_def storageKey_def AB_TEST_CONFIG_def)
  from stored_variant_kept [OF wf_AB_TEST_CONFIG t v g i, of "visitor Map.empty"]
  show ?thesis using t i wf_AB_TEST_CONFIG by (simp add: final_def start_def)
qed

text \<open>
  A stored label \<open>C\<close> that is no longer allowed, with the URL parameter
  \<open>ab_hero_headline=B\<close>: the parameter decides, and no random number is drawn. The random
  draw would have given \<open>A\<close>.
\<close>

lemma stale_override:
  "assignVariant AB_TEST_CONFIG (visitor [''ab_hero_headline'' \<mapsto> ''B'']) ''hero_headline''
     (start (working_storage stale)) =
   Normal (persisted AB_TEST_CONFIG ''hero_headline'' ''B'' (start (working_storage stale)))"
  by (simp add: visitor_def start_def
      working_storage_def AB_TEST_CONFIG_def assignVariant_def assignFromUrl_def 
      getItem_def setItem_def setVariant_def array_includes_def stale_def
      tests_lookup_def truthy_def toString_def storageKey_def persisted_def)

theorem invalid_stored_random_counterexample:
  "items (storage (start (working_storage stale))) (storageKey AB_TEST_CONFIG ''hero_headline'') = Some ''C'' \<and>
   ''C'' \<notin> set [''A'', ''B''] \<and>
   completed (assignVariant AB_TEST_CONFIG (visitor [''ab_hero_headline'' \<mapsto> ''B'']) ''hero_headline''
     (start (working_storage stale))) \<and>
   draws (final (assignVariant AB_TEST_CONFIG (visitor [''ab_hero_headline'' \<mapsto> ''B'']) ''hero_headline''
     (start (working_storage stale)))) = 0 \<and>
   variants (final (assignVariant AB_TEST_CONFIG (visitor [''ab_hero_headline'' \<mapsto> ''B'']) ''hero_headline''
     (start (working_storage stale)))) = [(''hero_headline'', Some ''B'')] \<and>
   [''A'', ''B''] ! nat \<lfloor>roundToDouble
     (math_random (visitor [''ab_hero_headline'' \<mapsto> ''B'']) 0 * real (length [''A'', ''B'']))\<rfloor> = ''A''"
  unfolding stale_override
  by (simp add: completed_def final_def persisted_def start_def working_storage_def stale_def
      storageKey_def AB_TEST_CONFIG_def visitor_def roundToDouble_zero)

text \<open>
  Claim C3, amended. With a storage whose reads and writes succeed, a stored variant
  outside the allowed set is discarded and treated as absent. If the test's URL parameter
  carries a value of the allowed set, that value is resolved and persisted. Otherwise
  resolution proceeds by the uniform random draw among the allowed set, after exactly one
  call of \<open>Math.random()\<close>: the label at index \<open>Math.floor(Math.random() * length)\<close>, which is
  the label \<open>i\<close> for every random number from \<open>i / length\<close> up to \<open>(i + 1) / length\<close> less a
  relative \<open>2^-53\<close>; the drawn label is persisted. The resolved label is in both cases a
  member of the allowed set, so never the invalid one. A JavaScript array has fewer than
  \<open>2^32\<close> elements.
\<close>

theorem invalid_stored_discarded:
  assumes wf: "wf_config cfg" and t: "(T, vs) \<in> set (tests cfg)" and rnd: "random_ok env"
    and len: "length vs < 2 ^ 32"
    and get: "\<not> getItem_throws (storage s)" and set: "\<not> setItem_throws (storage s)"
    and stored: "items (storage s) (storageKey cfg T) = Some W" and invalid: "W \<notin> set vs"
  shows "\<exists>l. l \<in> set vs \<and> l \<noteq> W \<and>
           (if search env (''ab_'' @ T) \<in> Some ` set vs
            then search env (''ab_'' @ T) = Some l \<and>
                 assignVariant cfg env T s = Normal (persisted cfg T l s)
            else l = vs ! nat \<lfloor>roundToDouble (math_random env (draws s) * real (length vs))\<rfloor> \<and>
                 (\<forall>i<length vs.
                    real i \<le> math_random env (draws s) * real (length vs) \<and>
                    math_random env (draws s) * real (length vs) \<le> real (i + 1) * (1 - 1 / 2 ^ 53)
                    \<longrightarrow> l = vs ! i) \<and>
                 assignVariant cfg env T s =
                   Normal (persisted cfg T l (s\<lparr>draws := Suc (draws s)\<rparr>)))"
proof -
  note e = wf_config_entry [OF wf t]
  from stored invalid have ns: "items (storage s) (storageKey cfg T) \<notin> Some ` (set vs - {[]})"
    by auto
  note url = assignVariant_not_stored [OF e(1) get ns, of env]
  show ?thesis
  proof (cases "search env (''ab_'' @ T) \<in> Some ` set vs")
    case True
    then obtain p where p: "search env (''ab_'' @ T) = Some p" "p \<in> set vs" by auto
    from assignFromUrl_override [OF e(1,2) set p] url True p invalid
    show ?thesis by auto
  next
    case False
    let ?p = "math_random env (draws s) * real (length vs)"
    from rnd have b: "0 \<le> math_random env (draws s)" "math_random env (draws s) \<le> 1 - 1 / 2 ^ 53"
      by (simp_all add: random_ok_def)
    from element_at_random [OF b e(3)]
    have m: "vs ! nat \<lfloor>roundToDouble ?p\<rfloor> \<in> set vs" by simp
    have u: "vs ! nat \<lfloor>roundToDouble ?p\<rfloor> = vs ! i"
      if i: "i < length vs" "real i \<le> ?p" "?p \<le> real (i + 1) * (1 - 1 / 2 ^ 53)" for i
    proof -
      have "real (i + 1) * (1 - 1 / 2 ^ 53) \<le> real (i + 1)" by (simp add: mult_left_le)
      also have "\<dots> \<le> real (length vs)" using i(1) by simp
      also have "\<dots> < 2 ^ 32" using len by (simp flip: of_nat_less_iff)
      also have "\<dots> < (2::real) ^ 53" by simp
      finally have "?p < 2 ^ 53" using i(3) by simp
      from floor_product_exact [OF i(2,3) this] show ?thesis by simp
    qed
    from assignRandom_draw [OF e(1,2,3) set b] assignFromUrl_no_override [OF e(1) False, of s] url
    have a: "assignVariant cfg env T s =
        Normal (persisted cfg T (vs ! nat \<lfloor>roundToDouble ?p\<rfloor>) (s\<lparr>draws := Suc (draws s)\<rparr>))"
      by simp
    from m invalid have "vs ! nat \<lfloor>roundToDouble ?p\<rfloor> \<noteq> W" by auto
    with m a u False show ?thesis by auto
  qed
qed

text \<open>
  A test with the three labels \<open>A\<close>, \<open>B\<close> and \<open>D\<close>, the stale label \<open>C\<close> in storage, and the
  random number \<open>0.6666666666666666\<close>: the product with 3 rounds to 2, so \<open>D\<close> is drawn.
\<close>

lemma wf_three_way_config: "wf_config three_way_config"
  by (simp add: wf_config_def three_way_config_def object_prototype_keys_def)

lemma random_ok_two_thirds: "random_ok (two_thirds_visitor params)"
  by (simp add: random_ok_def two_thirds_visitor_def)

lemma two_thirds_draw:
  "[''A'', ''B'', ''D''] ! nat \<lfloor>roundToDouble
     (6004799503160661 / 2 ^ 53 * real (length [''A'', ''B'', ''D'']))\<rfloor> = ''D''"
  by code_simp

theorem invalid_stored_discarded_witness:
  "wf_config three_way_config \<and>
   (''hero_headline'', [''A'', ''B'', ''D'']) \<in> set (tests three_way_config) \<and>
   random_ok (two_thirds_visitor Map.empty) \<and>
   items (storage (start (working_storage stale))) (storageKey three_way_config ''hero_headline'') = Some ''C'' \<and>
   ''C'' \<notin> set [''A'', ''B'', ''D''] \<and>
   search (two_thirds_visitor Map.empty) (''ab_'' @ ''hero_headline'') \<notin> Some ` set [''A'', ''B'', ''D''] \<and>
   assignVariant three_way_config (two_thirds_visitor Map.empty) ''hero_headline''
     (start (working_storage stale)) =
     Normal (persisted three_way_config ''hero_headline'' ''D''
       ((start (working_storage stale))\<lparr>draws := Suc 0\<rparr>))"
proof -
  have t: "(''hero_headline'', [''A'', ''B'', ''D'']) \<in> set (tests three_way_config)"
    by (simp add: three_way_config_def)
  have l: "length [''A'', ''B'', ''D''] < 2 ^ 32" by simp
  have g: "\<not> getItem_throws (storage (start (working_storage stale)))"
    "\<not> setItem_throws (storage (start (working_storage stale)))"
    by (simp_all add: start_def working_storage_def)
  have i: "items (storage (start (working_storage stale)))
      (storageKey three_way_config ''hero_headline'') = Some ''C''"
    by (simp add: start_def working_storage_def stale_def storageKey_def three_way_config_def)
  have n: "''C'' \<notin> set [''A'', ''B'', ''D'']" by simp
  have u: "search (two_thirds_visitor Map.empty) (''ab_'' @ ''hero_headline'') \<notin>
      Some ` set [''A'', ''B'', ''D'']"
    by (simp add: two_thirds_visitor_def)
  have r: "math_random (two_thirds_visitor Map.empty) (draws (start (working_storage stale))) =
      6004799503160661 / 2 ^ 53"
    by (simp add: two_thirds_visitor_def)
  have d: "draws (start (working_storage stale)) = 0" by (simp add: start_def)
  from invalid_stored_discarded [OF wf_three_way_config t random_ok_two_thirds l g i n, of Map.empty]
    u
  obtain l where "l = [''A'', ''B'', ''D''] ! nat \<lfloor>roundToDouble
        (math_random (two_thirds_visitor Map.empty) (draws (start (working_storage stale))) *
         real (length [''A'', ''B'', ''D'']))\<rfloor>"
    and a: "assignVariant three_way_config (two_thirds_visitor Map.empty) ''hero_headline''
        (start (working_storage stale)) =
      Normal (persisted three_way_config ''hero_headline'' l
        ((start (working_storage stale))\<lparr>draws := Suc (draws (start (working_storage stale)))\<rparr>))"
    by auto
  then have "l = ''D''" unfolding r by (simp only: two_thirds_draw)
  with a d have "assignVariant three_way_config (two_thirds_visitor Map.empty) ''hero_headline''
     (start (working_storage stale)) =
     Normal (persisted three_way_config ''hero_headline'' ''D''
       ((start (working_storage stale))\<lparr>draws := Suc 0\<rparr>))"
    by simp
  with wf_three_way_config t random_ok_two_thirds i n u show ?thesis by blast
qed

section \<open>Properties of initialization\<close>

text \<open>The impression calls made for a list of variant entries, by kind.\<close>

lemma impressionCalls_log:
  "filter isLogImpression (concat (map (impressionCalls env) es)) =
   map (\<lambda>(t, v). LogImpression t v) es"
  by (induction es)
    (auto simp: impressionCalls_def gtagImpression_def fbqImpression_def split: collector.splits)

lemma impressionCalls_gtag:
  "filter isGtagImpression (concat (map (impressionCalls env) es)) =
   (if gtag env = Absent then [] else map (\<lambda>(t, v). GtagImpression t v) es)"
  by (induction es)
    (auto simp: impressionCalls_def gtagImpression_def fbqImpression_def split: collector.splits)

lemma impressionCalls_fbq:
  "filter isFbqImpression (concat (map (impressionCalls env) es)) =
   (if fbq env = Absent then [] else map (\<lambda>(t, v). FbqImpression t v) es)"
  by (induction es)
    (auto simp: impressionCalls_def gtagImpression_def fbqImpression_def split: collector.splits)

lemma impressionCalls_not_apply:
  "filter isApplyCall (concat (map (impressionCalls env) es)) = []"
  by (induction es)
    (auto simp: impressionCalls_def gtagImpression_def fbqImpression_def split: collector.splits)

lemma applyCalls_all_apply: "filter isApplyCall (applyCalls es) = applyCalls es"
  by (induction es) (auto simp: applyCalls_def)

lemma applyCalls_configured:
  "set (map fst es) \<subseteq> set switch_cases \<Longrightarrow> applyCalls es = map (\<lambda>(t, v). ApplyCall t v) es"
  by (induction es) (auto simp: applyCalls_def)

text \<open>
  Claim C6, amended. On a page load without the preview parameter, with analytics enabled
  and a storage whose reads and writes succeed, the load completes with one resolved
  variant per configured test, and the calls it makes are, in this order: first the calls
  of the apply methods, with the resolved variants, after which the page shows the variant
  of every test; then the impressions, for each configured test in order exactly one
  console line with the test's name and resolved variant and exactly one call to each
  collector that is present. No impression is emitted before the last variant has been
  applied.
\<close>

theorem impressions_after_application:
  assumes wf: "wf_config cfg" and normal: "search env ''ab_preview'' = None"
    and enabled: "analyticsEnabled cfg"
    and get: "\<not> getItem_throws (storage s)" and set: "\<not> setItem_throws (storage s)"
  shows "\<exists>s'. domContentLoaded cfg env s = Initialized s' \<and>
           map fst (variants s') = map fst (tests cfg) \<and>
           distinct (map fst (variants s')) \<and>
           document s' = fold (\<lambda>(t, v). applyTest t v) (variants s') (document s) \<and>
           (\<forall>(t, v)\<in>set (variants s'). variant_shown t v (document s')) \<and>
           calls s' = calls s @ applyCalls (variants s') @
                      concat (map (impressionCalls env) (variants s')) \<and>
           filter isApplyCall (applyCalls (variants s')) = applyCalls (variants s') \<and>
           filter isApplyCall (concat (map (impressionCalls env) (variants s'))) = [] \<and>
           filter isLogImpression (concat (map (impressionCalls env) (variants s'))) =
             map (\<lambda>(t, v). LogImpression t v) (variants s') \<and>
           filter isGtagImpression (concat (map (impressionCalls env) (variants s'))) =
             (if gtag env = Absent then [] else map (\<lambda>(t, v). GtagImpression t v) (variants s')) \<and>
           filter isFbqImpression (concat (map (impressionCalls env) (variants s'))) =
             (if fbq env = Absent then [] else map (\<lambda>(t, v). FbqImpression t v) (variants s'))"
proof -
  let ?s0 = "s\<lparr>variants := []\<rparr>"
  have ok: "\<not> getItem_throws (storage ?s0)" "\<not> setItem_throws (storage ?s0)"
    using get set by simp_all
  from forEach_assign_total [OF wf_config_names [OF wf] ok] obtain s1
    where loop: "forEach (assignVariant cfg env) (map fst (tests cfg)) ?s0 = Normal s1"
    by blast
  from wf have d: "distinct (map fst (variants ?s0) @ map fst (tests cfg))"
    by (simp add: wf_config_def)
  have sub: "set (map fst (tests cfg)) \<subseteq> fst ` set (tests cfg)" by simp
  from forEach_assign [OF wf sub d loop]
  have names: "map fst (variants s1) = map fst (tests cfg)"
    and c: "calls s1 = calls s" and pg: "document s1 = document s" by simp_all
  from wf names have dn: "distinct (map fst (variants s1))" by (simp add: wf_config_def)
  define s' where "s' = trackImpressions cfg env (applyVariants s1)"
  have load: "domContentLoaded cfg env s = Initialized s'"
    using normal loop by (simp add: domContentLoaded_def new_ABTesting_def initialize_def s'_def)
  have v: "variants s' = variants s1"
    by (simp add: s'_def variants_trackImpressions variants_applyVariants)
  have doc: "document s' = fold (\<lambda>(t, v). applyTest t v) (variants s') (document s)"
    unfolding v by (simp add: s'_def trackImpressions_eq applyVariants_eq pg)
  have cs: "calls s' = calls s @ applyCalls (variants s') @
      concat (map (impressionCalls env) (variants s'))"
    unfolding v using enabled by (simp add: s'_def trackImpressions_eq applyVariants_eq c)
  have shown: "\<forall>(t, v)\<in>set (variants s'). variant_shown t v (document s')"
    unfolding doc using dn v by (auto intro: variant_shown_fold)
  from load names dn v doc shown cs show ?thesis
    by (simp add: applyCalls_all_apply impressionCalls_not_apply impressionCalls_log
        impressionCalls_gtag impressionCalls_fbq)
qed

text \<open>The definitions that evaluate a page load on a concrete input.\<close>

lemmas ab_eval = domContentLoaded_def new_ABTesting_def initialize_def handlePreviewMode_def
  assignVariant_def assignFromUrl_def assignRandom_def storeSelected_def getItem_def setItem_def
  setVariant_def randomDraw_def array_includes_def tests_lookup_def truthy_def toString_def
  storageKey_def element_at_def AB_TEST_CONFIG_def visitor_def start_def working_storage_def
  unavailable_storage_def object_prototype_keys_def addPreviewIndicator_def
  applyVariants_eq applyCalls_def switch_cases_def trackImpressions_eq impressionCalls_def
  gtagImpression_def fbqImpression_def after_load_def initialized_def completed_def final_def
  roundToDouble_zero

text \<open>
  A page load with \<open>ab_preview=hero_headline&variant=B\<close>: three tests are configured, the
  load completes, and the only calls are the one that applies the headline and the one
  that appends the indicator. No impression is emitted.
\<close>

theorem impression_per_test_counterexample:
  "map fst (tests AB_TEST_CONFIG) = [''hero_headline'', ''why_now_text'', ''cta_button_color''] \<and>
   initialized (domContentLoaded AB_TEST_CONFIG (visitor preview_hero_B)
     (start (working_storage Map.empty))) \<and>
   calls (after_load (domContentLoaded AB_TEST_CONFIG (visitor preview_hero_B)
     (start (working_storage Map.empty)))) =
     [ApplyCall ''hero_headline'' (Some ''B''), IndicatorAppended ''hero_headline'' ''B'']"
  by (simp add: ab_eval preview_hero_B_def Let_def)

text \<open>
  A first visit with gtag installed and fbq missing, every draw giving the first label:
  three calls of apply methods, then the six calls of the impressions; the hero section
  and the button carry the variant.
\<close>

lemma first_visit_variants:
  "variants (after_load (domContentLoaded AB_TEST_CONFIG (visitor Map.empty)
     (start (working_storage Map.empty)))) =
   [(''hero_headline'', Some ''A''), (''why_now_text'', Some ''A''),
    (''cta_button_color'', Some ''blue'')]"
  by (simp add: ab_eval)

lemma first_visit_page:
  "fold (\<lambda>(t, v). applyTest t v)
     [(''hero_headline'', Some ''A''), (''why_now_text'', Some ''A''),
      (''cta_button_color'', Some ''blue'')] sample_page =
   \<lparr>hero = Some (plain_element\<lparr>attributes := [''data-variant'' \<mapsto> ''A'']\<rparr>,
                  Some (plain_element\<lparr>inner := Html heroTitleHtmlA\<rparr>)),
    why_now = Some (plain_element\<lparr>attributes := [''data-variant'' \<mapsto> ''A'']\<rparr>),
    urgency_final = Some (plain_element\<lparr>inner := Text urgencyFinalTextA\<rparr>),
    cta_buttons = [plain_element\<lparr>attributes := [''data-variant'' \<mapsto> ''blue''],
                     classList := [''btn'', ''btn--primary'']\<rparr>],
    preview_indicators = []\<rparr>"
  by (simp add: applyTest_def applyHeroHeadlineVariant_def applyWhyNowTextVariant_def
      applyCtaButtonColorVariant_def applyCtaButton_def setAttribute_def classList_add_def
      classList_remove_def setStyle_def toString_def sample_page_def plain_element_def)

theorem impressions_after_application_witness:
  "wf_config AB_TEST_CONFIG \<and> search (visitor Map.empty) ''ab_preview'' = None \<and>
   analyticsEnabled AB_TEST_CONFIG \<and>
   \<not> getItem_throws (storage (start (working_storage Map.empty))) \<and>
   \<not> setItem_throws (storage (start (working_storage Map.empty))) \<and>
   calls (after_load (domContentLoaded AB_TEST_CONFIG (visitor Map.empty)
     (start (working_storage Map.empty)))) =
   [ApplyCall ''hero_headline'' (Some ''A''), ApplyCall ''why_now_text'' (Some ''A''),
    ApplyCall ''cta_button_color'' (Some ''blue''),
    GtagImpression ''hero_headline'' (Some ''A''), LogImpression ''hero_headline'' (Some ''A''),
    GtagImpression ''why_now_text'' (Some ''A''), LogImpression ''why_now_text'' (Some ''A''),
    GtagImpression ''cta_button_color'' (Some ''blue''),
    LogImpression ''cta_button_color'' (Some ''blue'')] \<and>
   document (after_load (domContentLoaded AB_TEST_CONFIG (visitor Map.empty)
     (start (working_storage Map.empty)))) =
   \<lparr>hero = Some (plain_element\<lparr>attributes := [''data-variant'' \<mapsto> ''A'']\<rparr>,
                  Some (plain_element\<lparr>inner := Html heroTitleHtmlA\<rparr>)),
    why_now = Some (plain_element\<lparr>attributes := [''data-variant'' \<mapsto> ''A'']\<rparr>),
    urgency_final = Some (plain_element\<lparr>inner := Text urgencyFinalTextA\<rparr>),
    cta_buttons = [plain_element\<lparr>attributes := [''data-variant'' \<mapsto> ''blue''],
                     classList := [''btn'', ''btn--primary'']\<rparr>],
    preview_indicators = []\<rparr>"
proof -
  have h: "search (visitor Map.empty) ''ab_preview'' = None" "analyticsEnabled AB_TEST_CONFIG"
    "\<not> getItem_throws (storage (start (working_storage Map.empty)))"
    "\<not> setItem_throws (storage (start (working_storage Map.empty)))"
    by (simp_all add: visitor_def AB_TEST_CONFIG_def start_def working_storage_def)
  let ?l = "domContentLoaded AB_TEST_CONFIG (visitor Map.empty) (start (working_storage Map.empty))"
  from impressions_after_application [OF wf_AB_TEST_CONFIG h] obtain s' where
    load: "?l = Initialized s'"
    and doc: "document s' = fold (\<lambda>(t, v). applyTest t v) (variants s')
        (document (start (working_storage Map.empty)))"
    and cs: "calls s' = calls (start (working_storage Map.empty)) @ applyCalls (variants s') @
        concat (map (impressionCalls (visitor Map.empty)) (variants s'))"
    by blast
  from load have al: "after_load ?l = s'" by (simp add: after_load_def)
  from first_visit_variants have v: "variants s' =
    [(''hero_headline'', Some ''A''), (''why_now_text'', Some ''A''),
     (''cta_button_color'', Some ''blue'')]"
    unfolding al .
  have "calls (after_load ?l) =
   [ApplyCall ''hero_headline'' (Some ''A''), ApplyCall ''why_now_text'' (Some ''A''),
    ApplyCall ''cta_button_color'' (Some ''blue''),
    GtagImpression ''hero_headline'' (Some ''A''), LogImpression ''hero_headline'' (Some ''A''),
    GtagImpression ''why_now_text'' (Some ''A''), LogImpression ''why_now_text'' (Some ''A''),
    GtagImpression ''cta_button_color'' (Some ''blue''),
    LogImpression ''cta_button_color'' (Some ''blue'')]"
    unfolding al cs v
    by (simp add: impressionCalls_def gtagImpression_def fbqImpression_def applyCalls_def
        switch_cases_def visitor_def start_def)
  moreover have "document (after_load ?l) =
   \<lparr>hero = Some (plain_element\<lparr>attributes := [''data-variant'' \<mapsto> ''A'']\<rparr>,
                  Some (plain_element\<lparr>inner := Html heroTitleHtmlA\<rparr>)),
    why_now = Some (plain_element\<lparr>attributes := [''data-variant'' \<mapsto> ''A'']\<rparr>),
    urgency_final = Some (plain_element\<lparr>inner := Text urgencyFinalTextA\<rparr>),
    cta_buttons = [plain_element\<lparr>attributes := [''data-variant'' \<mapsto> ''blue''],
                     classList := [''btn'', ''btn--primary'']\<rparr>],
    preview_indicators = []\<rparr>"
    unfolding al doc v using first_visit_page by (simp add: start_def)
  ultimately show ?thesis using wf_AB_TEST_CONFIG h by blast
qed

text \<open>Storage failures: the first failing call ends the loop over the tests.\<close>

lemma forEach_getItem_throws:
  assumes "getItem_throws (storage s)" "ts \<noteq> []"
  shows "forEach (assignVariant cfg env) ts s = Throw StorageError s"
  using assms by (cases ts) (simp_all add: assignVariant_def getItem_def)

lemma assignVariant_setItem_throws:
  assumes own: "map_of (tests cfg) t = Some vs"
    and get: "\<not> getItem_throws (storage s)" and set: "setItem_throws (storage s)"
    and ns: "items (storage s) (storageKey cfg t) \<notin> Some ` (set vs - {[]})"
  shows "\<exists>s'. assignVariant cfg env t s = Throw StorageError s' \<and> storage s' = storage s \<and>
           document s' = document s \<and> calls s' = calls s"
proof -
  note url = assignVariant_not_stored [OF own get ns, of env]
  show ?thesis
  proof (cases "search env (''ab_'' @ t) \<in> Some ` set vs")
    case True
    then obtain p where p: "search env (''ab_'' @ t) = Some p" "p \<in> set vs" by auto
    with own set show ?thesis unfolding url
      by (simp add: assignFromUrl_def array_includes_def lookup_own setItem_def setVariant_def)
  next
    case False
    from assignFromUrl_no_override [OF own False, of s] own set show ?thesis unfolding url
      by (simp add: assignRandom_def randomDraw_def lookup_own storeSelected_def setItem_def
          setVariant_def)
  qed
qed

lemma forEach_setItem_throws:
  assumes wf: "wf_config cfg"
  shows "set ts \<subseteq> fst ` set (tests cfg) \<Longrightarrow>
         \<not> getItem_throws (storage s) \<Longrightarrow> setItem_throws (storage s) \<Longrightarrow>
         \<exists>t\<in>set ts. \<exists>vs. (t, vs) \<in> set (tests cfg) \<and>
            items (storage s) (storageKey cfg t) \<notin> Some ` set vs \<Longrightarrow>
         \<exists>s'. forEach (assignVariant cfg env) ts s = Throw StorageError s' \<and>
              storage s' = storage s \<and> document s' = document s \<and> calls s' = calls s"
proof (induction ts arbitrary: s)
  case Nil
  then show ?case by simp
next
  case (Cons t ts)
  from Cons.prems(1) obtain vs where tv: "(t, vs) \<in> set (tests cfg)" by auto
  note e = wf_config_entry [OF wf tv]
  show ?case
  proof (cases "items (storage s) (storageKey cfg t) \<in> Some ` set vs")
    case False
    then have "items (storage s) (storageKey cfg t) \<notin> Some ` (set vs - {[]})" by auto
    from assignVariant_setItem_throws [OF e(1) Cons.prems(2,3) this, of env]
    show ?thesis by auto
  next
    case True
    then obtain v where v: "items (storage s) (storageKey cfg t) = Some v" "v \<in> set vs" by auto
    with e(4) have ne: "v \<noteq> []" by auto
    let ?s1 = "s\<lparr>variants := assign_prop t (Some v) (variants s)\<rparr>"
    from assignVariant_stored [OF e(1,2) Cons.prems(2) v(1) ne v(2)]
    have step: "assignVariant cfg env t s = Normal ?s1" .
    from Cons.prems(4) obtain t' vs' where t': "t' \<in> set (t # ts)" "(t', vs') \<in> set (tests cfg)"
      "items (storage s) (storageKey cfg t') \<notin> Some ` set vs'" by blast
    have "t' \<noteq> t"
    proof
      assume "t' = t"
      with t'(2) tv wf have "vs' = vs" by (auto simp: wf_config_def dest: eq_key_imp_eq_value)
      with t'(3) \<open>t' = t\<close> True show False by simp
    qed
    with t' have later: "\<exists>t\<in>set ts. \<exists>vs. (t, vs) \<in> set (tests cfg) \<and>
        items (storage ?s1) (storageKey cfg t) \<notin> Some ` set vs" by auto
    from Cons.prems(1) have sub: "set ts \<subseteq> fst ` set (tests cfg)" by simp
    have g: "\<not> getItem_throws (storage ?s1)" "setItem_throws (storage ?s1)"
      using Cons.prems(2,3) by simp_all
    from Cons.IH [OF sub g later] step show ?thesis by auto
  qed
qed

text \<open>
  Claim C7, amended. When \<open>getItem\<close> throws, or \<open>setItem\<close> throws while some configured
  test has no valid stored variant, a load without the preview parameter does not
  complete: the exception ends the construction, the load handler catches and logs it, and
  the document and the storage are as they were, with no impression emitted.
\<close>

theorem storage_failure_aborts:
  assumes wf: "wf_config cfg" and normal: "search env ''ab_preview'' = None"
    and trouble: "getItem_throws (storage s) \<and> tests cfg \<noteq> [] \<or>
       \<not> getItem_throws (storage s) \<and> setItem_throws (storage s) \<and>
       (\<exists>(t, vs)\<in>set (tests cfg). items (storage s) (storageKey cfg t) \<notin> Some ` set vs)"
  shows "\<exists>s'. domContentLoaded cfg env s = Failed s' \<and>
           calls s' = calls s @ [LogInitError StorageError] \<and>
           document s' = document s \<and> storage s' = storage s"
proof -
  let ?s0 = "s\<lparr>variants := []\<rparr>"
  have "\<exists>s1. forEach (assignVariant cfg env) (map fst (tests cfg)) ?s0 = Throw StorageError s1 \<and>
      storage s1 = storage ?s0 \<and> document s1 = document ?s0 \<and> calls s1 = calls ?s0"
  proof (cases "getItem_throws (storage s)")
    case True
    with trouble have "tests cfg \<noteq> []" by auto
    with True forEach_getItem_throws [of ?s0 "map fst (tests cfg)" cfg env]
    show ?thesis by simp
  next
    case False
    with trouble have st: "setItem_throws (storage ?s0)" and
      ex: "\<exists>(t, vs)\<in>set (tests cfg). items (storage s) (storageKey cfg t) \<notin> Some ` set vs"
      by auto
    from ex have ex': "\<exists>t\<in>set (map fst (tests cfg)). \<exists>vs. (t, vs) \<in> set (tests cfg) \<and>
        items (storage ?s0) (storageKey cfg t) \<notin> Some ` set vs" by force
    have sub: "set (map fst (tests cfg)) \<subseteq> fst ` set (tests cfg)" by simp
    from False have g: "\<not> getItem_throws (storage ?s0)" by simp
    from forEach_setItem_throws [OF wf sub g st ex'] show ?thesis .
  qed
  then obtain s1 where
    "forEach (assignVariant cfg env) (map fst (tests cfg)) ?s0 = Throw StorageError s1"
    "storage s1 = storage s" "document s1 = document s" "calls s1 = calls s" by auto
  with normal show ?thesis
    by (simp add: domContentLoaded_def new_ABTesting_def initialize_def)
qed

text \<open>
  A visitor whose storage is unavailable: no test is assigned, the page is untouched, and
  the only call made is the \<open>console.error\<close> of the handler.
\<close>

theorem storage_failure_counterexample:
  "getItem_throws (storage (start unavailable_storage)) \<and>
   \<not> initialized (domContentLoaded AB_TEST_CONFIG (visitor Map.empty) (start unavailable_storage)) \<and>
   variants (after_load (domContentLoaded AB_TEST_CONFIG (visitor Map.empty)
     (start unavailable_storage))) = [] \<and>
   document (after_load (domContentLoaded AB_TEST_CONFIG (visitor Map.empty)
     (start unavailable_storage))) = sample_page \<and>
   calls (after_load (domContentLoaded AB_TEST_CONFIG (visitor Map.empty)
     (start unavailable_storage))) = [LogInitError StorageError]"
  by (simp add: ab_eval)

text \<open>The same visitor, through the theorem.\<close>

theorem storage_failure_aborts_witness:
  "wf_config AB_TEST_CONFIG \<and> search (visitor Map.empty) ''ab_preview'' = None \<and>
   getItem_throws (storage (start unavailable_storage)) \<and> tests AB_TEST_CONFIG \<noteq> [] \<and>
   \<not> initialized (domContentLoaded AB_TEST_CONFIG (visitor Map.empty) (start unavailable_storage)) \<and>
   calls (after_load (domContentLoaded AB_TEST_CONFIG (visitor Map.empty)
     (start unavailable_storage))) = [LogInitError StorageError]"
proof -
  have h: "search (visitor Map.empty) ''ab_preview'' = None"
    "getItem_throws (storage (start unavailable_storage))" "tests AB_TEST_CONFIG \<noteq> []"
    by (simp_all add: visitor_def start_def unavailable_storage_def AB_TEST_CONFIG_def)
  then have "getItem_throws (storage (start unavailable_storage)) \<and> tests AB_TEST_CONFIG \<noteq> [] \<or>
       \<not> getItem_throws (storage (start unavailable_storage)) \<and>
       setItem_throws (storage (start unavailable_storage)) \<and>
       (\<exists>(t, vs)\<in>set (tests AB_TEST_CONFIG).
          items (storage (start unavailable_storage)) (storageKey AB_TEST_CONFIG t) \<notin> Some ` set vs)"
    by blast
  from storage_failure_aborts [OF wf_AB_TEST_CONFIG h(1) this, of ] obtain s' where
    "domContentLoaded AB_TEST_CONFIG (visitor Map.empty) (start unavailable_storage) = Failed s'"
    "calls s' = calls (start unavailable_storage) @ [LogInitError StorageError]"
    by blast
  then have "\<not> initialized (domContentLoaded AB_TEST_CONFIG (visitor Map.empty) (start unavailable_storage))"
    "calls (after_load (domContentLoaded AB_TEST_CONFIG (visitor Map.empty)
       (start unavailable_storage))) = [LogInitError StorageError]"
    by (simp_all add: initialized_def after_load_def start_def)
  with wf_AB_TEST_CONFIG h show ?thesis by blast
qed

text \<open>
  A page load with \<open>ab_preview=pricing_table&variant=A\<close>, which names no configured test:
  no test is resolved, the page is untouched and no impression is emitted.
\<close>

theorem malformed_preview_counterexample:
  "search (visitor preview_unknown) ''ab_preview'' = Some ''pricing_table'' \<and>
   map_of (tests AB_TEST_CONFIG) ''pricing_table'' = None \<and>
   map fst (tests AB_TEST_CONFIG) = [''hero_headline'', ''why_now_text'', ''cta_button_color''] \<and>
   initialized (domContentLoaded AB_TEST_CONFIG (visitor preview_unknown)
     (start (working_storage Map.empty))) \<and>
   variants (after_load (domContentLoaded AB_TEST_CONFIG (visitor preview_unknown)
     (start (working_storage Map.empty)))) = [] \<and>
   document (after_load (domContentLoaded AB_TEST_CONFIG (visitor preview_unknown)
     (start (working_storage Map.empty)))) = sample_page \<and>
   calls (after_load (domContentLoaded AB_TEST_CONFIG (visitor preview_unknown)
     (start (working_storage Map.empty)))) = []"
  by (simp add: ab_eval preview_unknown_def Let_def)

text \<open>
  Claim C4, amended. When the preview parameter is present but preview entry fails (the
  name is not a configured test, or the variant is missing, empty or not allowed), and the
  name is not a property name of \<open>Object.prototype\<close>, initialization ends without any
  effect: no test is resolved or applied, nothing is written to storage, no indicator is
  rendered and no impression is emitted.
\<close>

theorem malformed_preview_no_effect:
  assumes present: "search env ''ab_preview'' = Some t"
    and malformed: "\<not> preview_entry cfg env"
    and plain: "t \<notin> set object_prototype_keys"
  shows "domContentLoaded cfg env s = Initialized (s\<lparr>variants := []\<rparr>) \<and>
         variants (after_load (domContentLoaded cfg env s)) = [] \<and>
         storage (after_load (domContentLoaded cfg env s)) = storage s \<and>
         document (after_load (domContentLoaded cfg env s)) = document s \<and>
         calls (after_load (domContentLoaded cfg env s)) = calls s"
proof -
  have "domContentLoaded cfg env s = Initialized (s\<lparr>variants := []\<rparr>)"
    using assms
    by (auto simp add: domContentLoaded_def new_ABTesting_def initialize_def handlePreviewMode_def
        preview_entry_def Let_def truthy_def toString_def tests_lookup_def
        split: option.splits tests_entry.splits if_splits)
  then show ?thesis by (simp add: after_load_def)
qed

text \<open>
  A returning visitor opens the page with \<open>ab_preview=pricing_table\<close>: the stored variant
  is not even read.
\<close>

theorem malformed_preview_no_effect_witness:
  "search (visitor preview_unknown) ''ab_preview'' = Some ''pricing_table'' \<and>
   \<not> preview_entry AB_TEST_CONFIG (visitor preview_unknown) \<and>
   ''pricing_table'' \<notin> set object_prototype_keys \<and>
   domContentLoaded AB_TEST_CONFIG (visitor preview_unknown) (start (working_storage returning)) =
     Initialized ((start (working_storage returning))\<lparr>variants := []\<rparr>)"
proof -
  have p: "search (visitor preview_unknown) ''ab_preview'' = Some ''pricing_table''"
    by (simp add: visitor_def preview_unknown_def)
  have m: "\<not> preview_entry AB_TEST_CONFIG (visitor preview_unknown)"
    by (simp add: preview_entry_def visitor_def preview_unknown_def AB_TEST_CONFIG_def)
  have n: "''pricing_table'' \<notin> set object_prototype_keys"
    by (simp add: object_prototype_keys_def)
  from malformed_preview_no_effect [OF p m n, of "start (working_storage returning)"] p m n
  show ?thesis by blast
qed

text \<open>
  A preview name that \<open>config.tests\<close> inherits from \<open>Object.prototype\<close>, with a non-empty
  variant: the call of \<open>includes\<close> throws, and the load handler logs the error.
\<close>

lemma inherited_preview_name_throws:
  assumes "search env ''ab_preview'' = Some t" "truthy (search env ''variant'')"
    and "tests_lookup cfg t = InheritedProperty"
  shows "domContentLoaded cfg env s =
           Failed (s\<lparr>variants := [], calls := calls s @ [LogInitError TypeError]\<rparr>)"
proof -
  from assms(3) have "t \<in> set object_prototype_keys"
    by (auto simp: tests_lookup_def split: option.splits if_splits)
  then have "t \<noteq> []" by (auto simp: object_prototype_keys_def)
  with assms show ?thesis
    by (simp add: domContentLoaded_def new_ABTesting_def initialize_def handlePreviewMode_def
        Let_def truthy_def toString_def)
qed

lemma inherited_preview_toString:
  "domContentLoaded AB_TEST_CONFIG (visitor preview_inherited) (start (working_storage returning)) =
   Failed ((start (working_storage returning))
     \<lparr>variants := [], calls := [LogInitError TypeError]\<rparr>)"
proof -
  have "search (visitor preview_inherited) ''ab_preview'' = Some ''toString''"
    "truthy (search (visitor preview_inherited) ''variant'')"
    "tests_lookup AB_TEST_CONFIG ''toString'' = InheritedProperty"
    by (simp_all add: tests_lookup_def AB_TEST_CONFIG_def object_prototype_keys_def truthy_def
        visitor_def preview_inherited_def)
  from inherited_preview_name_throws [OF this] show ?thesis by (simp add: start_def)
qed

text \<open>
  A successful preview of \<open>hero_headline\<close>: the configured test \<open>why_now_text\<close> gets no
  variant and its section is not touched.
\<close>

theorem preview_other_tests_counterexample:
  "preview_entry AB_TEST_CONFIG (visitor preview_hero_B) \<and>
   (''why_now_text'', [''A'', ''B'']) \<in> set (tests AB_TEST_CONFIG) \<and>
   initialized (domContentLoaded AB_TEST_CONFIG (visitor preview_hero_B)
     (start (working_storage Map.empty))) \<and>
   map_of (variants (after_load (domContentLoaded AB_TEST_CONFIG (visitor preview_hero_B)
     (start (working_storage Map.empty))))) ''why_now_text'' = None \<and>
   why_now (document (after_load (domContentLoaded AB_TEST_CONFIG (visitor preview_hero_B)
     (start (working_storage Map.empty))))) = why_now sample_page"
  by (simp add: ab_eval preview_hero_B_def preview_entry_def Let_def
      applyTest_def applyHeroHeadlineVariant_def sample_page_def)

lemma indicator_replaced:
  "(case inds of [] \<Rightarrow> [] | existing # others \<Rightarrow> others) = tl inds"
  by (cases inds) simp_all

text \<open>
  Claim C5, amended. On successful preview entry for test \<open>T\<close> with variant \<open>V\<close>, with a
  writable storage, the load completes; \<open>V\<close> is persisted and \<open>T\<close> resolves to \<open>V\<close> whatever
  was stored; the apply method of \<open>T\<close> is called with \<open>V\<close>, after which the page shows \<open>V\<close>
  for \<open>T\<close>; and only then the indicator for \<open>T\<close> and \<open>V\<close> is appended, in place of the
  first indicator already there. \<open>T\<close> is the only test resolved and applied, no random
  number is drawn and no impression is emitted.
\<close>

theorem preview_forces_variant:
  assumes wf: "wf_config cfg"
    and name: "search env ''ab_preview'' = Some T" "T \<noteq> []"
    and var: "search env ''variant'' = Some V"
    and t: "(T, vs) \<in> set (tests cfg)" and v: "V \<in> set vs"
    and set: "\<not> setItem_throws (storage s)"
  shows "\<exists>s'. domContentLoaded cfg env s = Initialized s' \<and>
           variants s' = [(T, Some V)] \<and>
           storage s' = (storage s)\<lparr>items := (items (storage s))(storageKey cfg T \<mapsto> V)\<rparr> \<and>
           draws s' = draws s \<and>
           document s' = (applyTest T (Some V) (document s))
             \<lparr>preview_indicators := tl (preview_indicators (document s)) @ [(T, V)]\<rparr> \<and>
           variant_shown T (Some V) (document s') \<and>
           calls s' = calls s @ (if T \<in> set switch_cases then [ApplyCall T (Some V)] else []) @
                      [IndicatorAppended T V]"
proof -
  note e = wf_config_entry [OF wf t]
  from e(4) v have ne: "V \<noteq> []" by auto
  define s' where "s' = addPreviewIndicator T V
    (applyVariants (setVariant T (Some V)
      (s\<lparr>variants := [],
         storage := (storage s)\<lparr>items := (items (storage s))(storageKey cfg T \<mapsto> V)\<rparr>\<rparr>)))"
  have load: "domContentLoaded cfg env s = Initialized s'"
    using name var e(1,2) v ne set
    by (simp add: domContentLoaded_def new_ABTesting_def initialize_def handlePreviewMode_def
        Let_def truthy_def toString_def lookup_own setItem_def s'_def)
  have vs': "variants s' = [(T, Some V)]"
    using e(2) by (simp add: s'_def addPreviewIndicator_def variants_applyVariants setVariant_def)
  have st: "storage s' = (storage s)\<lparr>items := (items (storage s))(storageKey cfg T \<mapsto> V)\<rparr>"
    and dr: "draws s' = draws s"
    using e(2) by (simp_all add: s'_def addPreviewIndicator_def applyVariants_eq setVariant_def)
  have doc: "document s' = (applyTest T (Some V) (document s))
      \<lparr>preview_indicators := tl (preview_indicators (document s)) @ [(T, V)]\<rparr>"
    using e(2)
    by (simp add: s'_def addPreviewIndicator_def applyVariants_eq setVariant_def
        indicator_replaced preview_indicators_applyTest)
  have shown: "variant_shown T (Some V) (document s')"
    unfolding doc by (simp add: variant_shown_indicators variant_shown_applied)
  have cs: "calls s' = calls s @ (if T \<in> set switch_cases then [ApplyCall T (Some V)] else []) @
      [IndicatorAppended T V]"
    using e(2)
    by (simp add: s'_def addPreviewIndicator_def applyVariants_eq setVariant_def applyCalls_def)
  from load vs' st dr doc shown cs show ?thesis by blast
qed

text \<open>
  A preview of \<open>hero_headline\<close> with \<open>B\<close>, over the stale stored label \<open>C\<close>: the headline
  is replaced, then the indicator is appended.
\<close>

lemma preview_hero_page:
  "applyTest ''hero_headline'' (Some ''B'') sample_page =
   sample_page\<lparr>hero := Some (plain_element\<lparr>attributes := [''data-variant'' \<mapsto> ''B'']\<rparr>,
                              Some (plain_element\<lparr>inner := Html heroTitleHtmlB\<rparr>))\<rparr>"
  by (simp add: applyTest_def applyHeroHeadlineVariant_def setAttribute_def toString_def
      sample_page_def plain_element_def)

theorem preview_forces_variant_witness:
  "wf_config AB_TEST_CONFIG \<and> search (visitor preview_hero_B) ''ab_preview'' = Some ''hero_headline'' \<and>
   search (visitor preview_hero_B) ''variant'' = Some ''B'' \<and>
   (''hero_headline'', [''A'', ''B'']) \<in> set (tests AB_TEST_CONFIG) \<and>
   \<not> setItem_throws (storage (start (working_storage stale))) \<and>
   variants (after_load (domContentLoaded AB_TEST_CONFIG (visitor preview_hero_B)
     (start (working_storage stale)))) = [(''hero_headline'', Some ''B'')] \<and>
   items (storage (after_load (domContentLoaded AB_TEST_CONFIG (visitor preview_hero_B)
     (start (working_storage stale))))) (storageKey AB_TEST_CONFIG ''hero_headline'') = Some ''B'' \<and>
   hero (document (after_load (domContentLoaded AB_TEST_CONFIG (visitor preview_hero_B)
     (start (working_storage stale))))) =
     Some (plain_element\<lparr>attributes := [''data-variant'' \<mapsto> ''B'']\<rparr>,
           Some (plain_element\<lparr>inner := Html heroTitleHtmlB\<rparr>)) \<and>
   preview_indicators (document (after_load (domContentLoaded AB_TEST_CONFIG
     (visitor preview_hero_B) (start (working_storage stale))))) = [(''hero_headline'', ''B'')] \<and>
   calls (after_load (domContentLoaded AB_TEST_CONFIG (visitor preview_hero_B)
     (start (working_storage stale)))) =
     [ApplyCall ''hero_headline'' (Some ''B''), IndicatorAppended ''hero_headline'' ''B'']"
proof -
  have h: "search (visitor preview_hero_B) ''ab_preview'' = Some ''hero_headline''"
    "''hero_headline'' \<noteq> []"
    "search (visitor preview_hero_B) ''variant'' = Some ''B''"
    "(''hero_headline'', [''A'', ''B'']) \<in> set (tests AB_TEST_CONFIG)"
    "''B'' \<in> set [''A'', ''B'']"
    "\<not> setItem_throws (storage (start (working_storage stale)))"
    by (simp_all add: visitor_def preview_hero_B_def AB_TEST_CONFIG_def start_def
        working_storage_def)
  let ?l = "domContentLoaded AB_TEST_CONFIG (visitor preview_hero_B) (start (working_storage stale))"
  from preview_forces_variant [OF wf_AB_TEST_CONFIG h] obtain s' where
    load: "?l = Initialized s'"
    and f: "variants s' = [(''hero_headline'', Some ''B'')]"
      "storage s' = (storage (start (working_storage stale)))
         \<lparr>items := (items (storage (start (working_storage stale))))
            (storageKey AB_TEST_CONFIG ''hero_headline'' \<mapsto> ''B'')\<rparr>"
      "document s' = (applyTest ''hero_headline'' (Some ''B'') (document (start (working_storage stale))))
         \<lparr>preview_indicators := tl (preview_indicators (document (start (working_storage stale)))) @
            [(''hero_headline'', ''B'')]\<rparr>"
      "calls s' = calls (start (working_storage stale)) @
         (if ''hero_headline'' \<in> set switch_cases then [ApplyCall ''hero_headline'' (Some ''B'')] else []) @
         [IndicatorAppended ''hero_headline'' ''B'']"
    by blast
  from load have al: "after_load ?l = s'" by (simp add: after_load_def)
  have d: "document (start (working_storage stale)) = sample_page" by (simp add: start_def)
  have "variants (after_load ?l) = [(''hero_headline'', Some ''B'')]"
    "items (storage (after_load ?l)) (storageKey AB_TEST_CONFIG ''hero_headline'') = Some ''B''"
    "hero (document (after_load ?l)) =
       Some (plain_element\<lparr>attributes := [''data-variant'' \<mapsto> ''B'']\<rparr>,
             Some (plain_element\<lparr>inner := Html heroTitleHtmlB\<rparr>))"
    "preview_indicators (document (after_load ?l)) = [(''hero_headline'', ''B'')]"
    "calls (after_load ?l) =
       [ApplyCall ''hero_headline'' (Some ''B''), IndicatorAppended ''hero_headline'' ''B'']"
    unfolding al f d preview_hero_page
    by (simp_all add: sample_page_def switch_cases_def start_def)
  with wf_AB_TEST_CONFIG h show ?thesis by blast
qed

end
